theory Spec2Isabelle
  imports Complex_Main "HOL-Library.Sublist"
begin

section \<open>The Timer of thyming/timer.py\<close>

text \<open>
  The repository is one Python class, \<open>Timer\<close>, with two exception classes. The model
  is a state-passing one: every method takes the state and returns an outcome together
  with the state it leaves behind, also when it raises, because the methods mutate the
  timer before they log.

  What lies outside the class is a parameter of the model:
  \<^item> \<open>perf_counter()\<close> and \<open>datetime.now()\<close> are sequences of readings, the state
    counting how many were taken;
  \<^item> \<open>str.format\<close> on the message template is a function that may raise;
  \<^item> the logger is a callable that, for a given line, returns or raises. It does not
    reach back into the timer.

  Python floats are modelled by \<open>real\<close>; no statement below depends on how the
  difference of two readings is rounded.
\<close>

subsection \<open>Text helpers of the Python library\<close>

definition newline :: char where
  "newline = CHR 0x0A"

text \<open>\<open>s.split("\n")\<close>: the pieces between newlines, \<open>[""]\<close> for the empty string.\<close>

fun split_nl :: "string \<Rightarrow> string list" where
  "split_nl [] = [] # []"
| "split_nl (c # cs) =
     (if c = newline then [] # split_nl cs
      else (case split_nl cs of [] \<Rightarrow> [c] # [] | l # ls \<Rightarrow> (c # l) # ls))"

definition digit_char :: "nat \<Rightarrow> char" where
  "digit_char d = ''0123456789'' ! (d mod 10)"

text \<open>A number in decimal on exactly \<open>w\<close> digits, zero-padded (\<open>%04d\<close>, \<open>%02d\<close>, \<open>%06d\<close>).\<close>

primrec zpad :: "nat \<Rightarrow> nat \<Rightarrow> string" where
  "zpad 0 n = []"
| "zpad (Suc w) n = zpad w (n div 10) @ [digit_char n]"

record datetime =
  year :: nat
  month :: nat
  day :: nat
  hour :: nat
  minute :: nat
  second :: nat
  microsecond :: nat

text \<open>\<open>d.isoformat('T', 'seconds')\<close> of a naive datetime.\<close>

definition isoformat_seconds :: "datetime \<Rightarrow> string" where
  "isoformat_seconds d =
     zpad 4 (year d) @ ''-'' @ zpad 2 (month d) @ ''-'' @ zpad 2 (day d) @ ''T'' @
     zpad 2 (hour d) @ '':'' @ zpad 2 (minute d) @ '':'' @ zpad 2 (second d)"

text \<open>\<open>d.isoformat()\<close>: the microseconds are printed unless they are zero.\<close>

definition isoformat :: "datetime \<Rightarrow> string" where
  "isoformat d =
     (if microsecond d = 0 then isoformat_seconds d
      else isoformat_seconds d @ ''.'' @ zpad 6 (microsecond d))"

subsection \<open>Exceptions\<close>

text \<open>
  The two dataclasses carry \<open>timer_name\<close>, \<open>timestamp\<close> and the \<open>message\<close> that
  \<open>__post_init__\<close> renders; \<open>TimerNotRunningError\<close> carries the \<open>action\<close> as well.
  \<open>LoggerError\<close> stands for whatever the logger raised on a line, \<open>FormatError\<close> for
  what \<open>str.format\<close> raised on a template, \<open>UserError\<close> for an exception of the
  caller's own code.
\<close>

datatype pyexn =
    TimerAlreadyRunningError string datetime string
  | TimerNotRunningError string datetime string string
  | LoggerError string
  | FormatError string
  | UserError string

definition new_TimerAlreadyRunningError :: "string \<Rightarrow> datetime \<Rightarrow> pyexn" where
  "new_TimerAlreadyRunningError timer_name timestamp =
     TimerAlreadyRunningError timer_name timestamp
       (''['' @ isoformat timestamp @ ''] Tried to start '' @
        timer_name @ '' but it was already running.'')"

definition new_TimerNotRunningError :: "string \<Rightarrow> datetime \<Rightarrow> string \<Rightarrow> pyexn" where
  "new_TimerNotRunningError timer_name timestamp action =
     TimerNotRunningError timer_name timestamp
       (''['' @ isoformat timestamp @ ''] Tried to click `'' @ action @ ''` on '' @
        timer_name @ '' but it wasn't running.'')
       action"

subsection \<open>Messages\<close>

datatype DefaultMessage = START | MEASURE | END

text \<open>\<open>TimerMessage = Union[str, None, DefaultMessage]\<close>.\<close>

datatype TimerMessage = MNone | MStr string | MDefault DefaultMessage

text \<open>
  Python's truth value of a message: \<open>None\<close> and the empty string are false, an enum
  member is true whatever its value.
\<close>

fun truthy :: "TimerMessage \<Rightarrow> bool" where
  "truthy MNone = False"
| "truthy (MStr s) = (s \<noteq> [])"
| "truthy (MDefault d) = True"

subsection \<open>The timer and its surroundings\<close>

type_synonym addr = nat

text \<open>
  The fields of the dataclass. \<open>recorded_times\<close> is a reference to a list object, which
  lives in the heap of the state: the list is appended to in place and handed out by
  \<open>times\<close>. A logger maps a line to \<open>True\<close> when the call returns and to \<open>False\<close> when
  it raises.
\<close>

record Timer =
  name :: "string option"
  message :: string
  logger :: "(string \<Rightarrow> bool) option"
  start_time :: "real option"
  recorded_times :: addr

record env =
  perf_counter :: "nat \<Rightarrow> real"
  dt_now :: "nat \<Rightarrow> datetime"
  str_format :: "string \<Rightarrow> real \<Rightarrow> string option"

text \<open>
  \<open>self\<close> holds the timer's fields, \<open>heap\<close> the list objects, \<open>calls\<close> the lines the
  logger was called with, in order; the two counters say how many clock readings were
  taken.
\<close>

record state =
  self :: Timer
  heap :: "addr \<Rightarrow> real list"
  calls :: "string list"
  perf_reads :: nat
  now_reads :: nat

text \<open>What a method returns: \<open>None\<close>, a float, \<open>self\<close>, or a reference to a list.\<close>

datatype pyval = PNone | PFloat real | PSelf | PList addr

fun py_bool :: "pyval \<Rightarrow> bool" where
  "py_bool PNone = False"
| "py_bool (PFloat x) = (x \<noteq> 0)"
| "py_bool PSelf = True"
| "py_bool (PList a) = True"

type_synonym 'a outcome = "(pyexn + 'a) \<times> state"

definition read_perf_counter :: "env \<Rightarrow> state \<Rightarrow> real \<times> state" where
  "read_perf_counter e s = (perf_counter e (perf_reads s), s\<lparr>perf_reads := Suc (perf_reads s)\<rparr>)"

definition read_dt_now :: "env \<Rightarrow> state \<Rightarrow> datetime \<times> state" where
  "read_dt_now e s = (dt_now e (now_reads s), s\<lparr>now_reads := Suc (now_reads s)\<rparr>)"

text \<open>The dataclass constructor; \<open>a\<close> is the address of the fresh list it allocates.\<close>

definition new_Timer ::
  "string option \<Rightarrow> string \<Rightarrow> (string \<Rightarrow> bool) option \<Rightarrow> real option \<Rightarrow> addr \<Rightarrow> state \<Rightarrow> state" where
  "new_Timer nm msg lg st a s =
     s\<lparr>self := \<lparr>name = nm, message = msg, logger = lg, start_time = st, recorded_times = a\<rparr>,
       heap := (heap s)(a := [])\<rparr>"

text \<open>
  In-place mutation of the list object behind a reference, by whoever holds the
  reference: \<open>xs.append(x)\<close>, and any other update \<open>f\<close> of the list's contents.
\<close>

definition list_mutate :: "addr \<Rightarrow> (real list \<Rightarrow> real list) \<Rightarrow> state \<Rightarrow> state" where
  "list_mutate a f s = s\<lparr>heap := (heap s)(a := f (heap s a))\<rparr>"

definition list_append :: "addr \<Rightarrow> real \<Rightarrow> state \<Rightarrow> state" where
  "list_append a x s = list_mutate a (\<lambda>xs. xs @ [x]) s"

subsection \<open>The methods\<close>

text \<open>
  Each method keeps its name, without the leading underscores of \<open>_click\<close>,
  \<open>_timer_name\<close>, \<open>_timestamp_to_msg\<close> and \<open>_get_logging_message\<close>; \<open>measure\<close>,
  \<open>log\<close>, \<open>__enter__\<close> and \<open>__exit__\<close> are \<open>Timer_measure\<close>, \<open>Timer_log\<close>,
  \<open>Timer_enter\<close> and \<open>Timer_exit\<close>. The test \<open>if self.logger:\<close> of \<open>_click\<close> is the
  truth value of a callable, which is true: it is the test \<open>is not None\<close>. The method
  \<open>sleep\<close> passes its argument to \<open>time.sleep\<close> and touches nothing of the timer; it
  has no counterpart here.
\<close>

definition timestamp_to_msg :: "env \<Rightarrow> DefaultMessage \<Rightarrow> state \<Rightarrow> string \<times> state" where
  "timestamp_to_msg e timestamp s =
     (if timestamp = START then
        (case read_dt_now e s of (d, s') \<Rightarrow> (''START: '' @ isoformat_seconds d, s'))
      else if timestamp = MEASURE then
        (case read_dt_now e s of (d, s') \<Rightarrow> (''MEASURED: '' @ isoformat_seconds d, s'))
      else
        (case read_dt_now e s of (d, s') \<Rightarrow> (''END: '' @ isoformat_seconds d, s')))"

definition timer_name :: "Timer \<Rightarrow> string" where
  "timer_name t =
     (case name t of
        None \<Rightarrow> ''Unnamed Timer''
      | Some n \<Rightarrow> (if n \<noteq> [] then ''Timer(name='' @ n @ '')'' else ''Unnamed Timer''))"

text \<open>One call of the logger: the line is recorded, then the call returns or raises.\<close>

definition call_logger :: "(string \<Rightarrow> bool) \<Rightarrow> string \<Rightarrow> state \<Rightarrow> unit outcome" where
  "call_logger lg line s =
     (if lg line then (Inr (), s\<lparr>calls := calls s @ [line]\<rparr>)
      else (Inl (LoggerError line), s\<lparr>calls := calls s @ [line]\<rparr>))"

text \<open>The loop \<open>for msg_line in msg.split("\n"): self.logger(msg_line)\<close>.\<close>

fun log_lines :: "(string \<Rightarrow> bool) \<Rightarrow> string list \<Rightarrow> state \<Rightarrow> unit outcome" where
  "log_lines lg [] s = (Inr (), s)"
| "log_lines lg (l # ls) s =
     (case call_logger lg l s of
        (Inl x, s') \<Rightarrow> (Inl x, s')
      | (Inr u, s') \<Rightarrow> log_lines lg ls s')"

definition Timer_log :: "env \<Rightarrow> TimerMessage \<Rightarrow> state \<Rightarrow> pyval outcome" where
  "Timer_log e msg s =
     (case logger (self s) of
        None \<Rightarrow> (Inr PSelf, s)
      | Some lg \<Rightarrow>
          (case msg of
             MNone \<Rightarrow> (Inr PSelf, s)
           | MDefault d \<Rightarrow>
               (case timestamp_to_msg e d s of
                  (line, s1) \<Rightarrow>
                    (case call_logger lg line s1 of
                       (Inl x, s2) \<Rightarrow> (Inl x, s2)
                     | (Inr u, s2) \<Rightarrow> (Inr PSelf, s2)))
           | MStr m \<Rightarrow>
               (case log_lines lg (split_nl m) s of
                  (Inl x, s1) \<Rightarrow> (Inl x, s1)
                | (Inr u, s1) \<Rightarrow> (Inr PSelf, s1))))"

definition start :: "env \<Rightarrow> TimerMessage \<Rightarrow> state \<Rightarrow> pyval outcome" where
  "start e click_message s =
     (if start_time (self s) \<noteq> None then
        (case read_dt_now e s of
           (d, s1) \<Rightarrow> (Inl (new_TimerAlreadyRunningError (timer_name (self s)) d), s1))
      else
        (case read_perf_counter e s of
           (t, s1) \<Rightarrow>
             (let s2 = s1\<lparr>self := (self s1)\<lparr>start_time := Some t\<rparr>\<rparr> in
              if truthy click_message then
                (if logger (self s2) \<noteq> None then
                   (case Timer_log e click_message s2 of
                      (Inl x, s3) \<Rightarrow> (Inl x, s3)
                    | (Inr v, s3) \<Rightarrow> (Inr PSelf, s3))
                 else (Inr PSelf, s2))
              else (Inr PSelf, s2))))"

text \<open>
  \<open>_get_logging_message\<close>: the two messages are resolved first (a default marker reads
  the clock), then the text is assembled; formatting the template may raise.
\<close>

definition resolve :: "env \<Rightarrow> TimerMessage \<Rightarrow> state \<Rightarrow> TimerMessage \<times> state" where
  "resolve e m s =
     (case m of
        MDefault d \<Rightarrow> (case timestamp_to_msg e d s of (txt, s') \<Rightarrow> (MStr txt, s'))
      | MStr x \<Rightarrow> (MStr x, s)
      | MNone \<Rightarrow> (MNone, s))"

definition text_of :: "TimerMessage \<Rightarrow> string" where
  "text_of m = (case m of MStr x \<Rightarrow> x | MNone \<Rightarrow> [] | MDefault d \<Rightarrow> [])"

definition get_logging_message ::
  "env \<Rightarrow> real \<Rightarrow> TimerMessage \<Rightarrow> TimerMessage \<Rightarrow> state \<Rightarrow> string outcome" where
  "get_logging_message e recorded_time msg_pre msg_post s =
     (case resolve e msg_pre s of
        (pre, s1) \<Rightarrow>
          (case resolve e msg_post s1 of
             (post, s2) \<Rightarrow>
               (let msg = (if truthy pre then text_of pre @ [newline]
                           else (case name (self s2) of
                                   None \<Rightarrow> []
                                 | Some n \<Rightarrow> (if n \<noteq> [] then n @ '':'' @ [newline] else [])))
                in case str_format e (message (self s2)) recorded_time of
                     None \<Rightarrow> (Inl (FormatError (message (self s2))), s2)
                   | Some body \<Rightarrow>
                       (if truthy post then (Inr (msg @ body @ [newline] @ text_of post), s2)
                        else (Inr (msg @ body), s2)))))"

definition click ::
  "env \<Rightarrow> bool \<Rightarrow> TimerMessage \<Rightarrow> TimerMessage \<Rightarrow> string \<Rightarrow> state \<Rightarrow> pyval outcome" where
  "click e stop_timer msg_pre msg_post action s =
     (case start_time (self s) of
        None \<Rightarrow>
          (case read_dt_now e s of
             (d, s1) \<Rightarrow> (Inl (new_TimerNotRunningError (timer_name (self s)) d action), s1))
      | Some t0 \<Rightarrow>
          (case read_perf_counter e s of
             (t, s1) \<Rightarrow>
               (let recorded_time = t - t0;
                    s2 = (if stop_timer then s1\<lparr>self := (self s1)\<lparr>start_time := None\<rparr>\<rparr> else s1);
                    s3 = list_append (recorded_times (self s2)) recorded_time s2
                in if logger (self s3) \<noteq> None then
                     (case get_logging_message e recorded_time msg_pre msg_post s3 of
                        (Inl x, s4) \<Rightarrow> (Inl x, s4)
                      | (Inr m, s4) \<Rightarrow>
                          (case Timer_log e (MStr m) s4 of
                             (Inl x, s5) \<Rightarrow> (Inl x, s5)
                           | (Inr v, s5) \<Rightarrow> (Inr (PFloat recorded_time), s5)))
                   else (Inr (PFloat recorded_time), s3))))"

definition stop :: "env \<Rightarrow> TimerMessage \<Rightarrow> TimerMessage \<Rightarrow> state \<Rightarrow> pyval outcome" where
  "stop e msg_pre msg_post s = click e True msg_pre msg_post ''stop'' s"

definition Timer_measure :: "env \<Rightarrow> TimerMessage \<Rightarrow> TimerMessage \<Rightarrow> state \<Rightarrow> pyval outcome" where
  "Timer_measure e msg_pre msg_post s = click e False msg_pre msg_post ''measure'' s"

text \<open>The property \<open>times\<close> returns the attribute itself, a reference to the list.\<close>

definition times :: "state \<Rightarrow> pyval outcome" where
  "times s = (Inr (PList (recorded_times (self s))), s)"

definition Timer_enter :: "env \<Rightarrow> state \<Rightarrow> pyval outcome" where
  "Timer_enter e s =
     (case start e MNone s of
        (Inl x, s1) \<Rightarrow> (Inl x, s1)
      | (Inr v, s1) \<Rightarrow> (Inr PNone, s1))"

definition Timer_exit :: "env \<Rightarrow> state \<Rightarrow> pyval outcome" where
  "Timer_exit e s =
     (if start_time (self s) \<noteq> None then
        (case stop e MNone MNone s of
           (Inl x, s1) \<Rightarrow> (Inl x, s1)
         | (Inr v, s1) \<Rightarrow> (Inr PNone, s1))
      else (Inr PNone, s))"

definition restart :: "env \<Rightarrow> TimerMessage \<Rightarrow> TimerMessage \<Rightarrow> state \<Rightarrow> pyval outcome" where
  "restart e msg_pre msg_post s =
     (case stop e msg_pre msg_post s of
        (Inl x, s1) \<Rightarrow> (Inl x, s1)
      | (Inr v, s1) \<Rightarrow> start e MNone s1)"

subsection \<open>The with statement\<close>

text \<open>
  \<open>with timer as v: body\<close>, as Python runs it: \<open>__enter__\<close> is called and its value
  bound to \<open>v\<close>; if it raises, the body and \<open>__exit__\<close> are skipped. Otherwise the body
  runs and, however it ends, \<open>__exit__\<close> is called. An exception of \<open>__exit__\<close> replaces
  what the body did; an exception of the body is swallowed only when \<open>__exit__\<close> returns
  a true value. A body ends by running off its end, by leaving early (\<open>return\<close>,
  \<open>break\<close>, \<open>continue\<close>) or by raising.
\<close>

datatype block_exit = Falls_through | Leaves_early

definition with_Timer ::
  "env \<Rightarrow> (pyval \<Rightarrow> state \<Rightarrow> block_exit outcome) \<Rightarrow> state \<Rightarrow> block_exit outcome" where
  "with_Timer e body s =
     (case Timer_enter e s of
        (Inl x, s1) \<Rightarrow> (Inl x, s1)
      | (Inr v, s1) \<Rightarrow>
          (case body v s1 of
             (r, s2) \<Rightarrow>
               (case Timer_exit e s2 of
                  (Inl x, s3) \<Rightarrow> (Inl x, s3)
                | (Inr w, s3) \<Rightarrow>
                    (case r of
                       Inl x \<Rightarrow> (if py_bool w then (Inr Falls_through, s3) else (Inl x, s3))
                     | Inr b \<Rightarrow> (Inr b, s3)))))"

subsection \<open>Sequences of calls\<close>

text \<open>
  A caller's sequence of method calls on one timer. The caller catches what a call
  raises and goes on, so that the outcomes of all calls are collected; a sequence that
  stops at the first exception is a prefix of such a run.
\<close>

datatype call =
    Start TimerMessage
  | Measure TimerMessage TimerMessage
  | Stop TimerMessage TimerMessage
  | Restart TimerMessage TimerMessage
  | Log TimerMessage
  | Times
  | Enter
  | Exit

fun run_call :: "env \<Rightarrow> call \<Rightarrow> state \<Rightarrow> pyval outcome" where
  "run_call e (Start m) s = start e m s"
| "run_call e (Measure m1 m2) s = Timer_measure e m1 m2 s"
| "run_call e (Stop m1 m2) s = stop e m1 m2 s"
| "run_call e (Restart m1 m2) s = restart e m1 m2 s"
| "run_call e (Log m) s = Timer_log e m s"
| "run_call e Times s = times s"
| "run_call e Enter s = Timer_enter e s"
| "run_call e Exit s = Timer_exit e s"

fun run :: "env \<Rightarrow> call list \<Rightarrow> state \<Rightarrow> (pyexn + pyval) list \<times> state" where
  "run e [] s = ([], s)"
| "run e (c # cs) s =
     (case run_call e c s of
        (r, s1) \<Rightarrow> (case run e cs s1 of (rs, s2) \<Rightarrow> (r # rs, s2)))"

subsection \<open>Kinds of outcome\<close>

text \<open>
  The exceptions that are not the timer's own but pass through it: what the logger
  raised and what formatting the template raised.
\<close>

fun is_logging_exn :: "pyexn \<Rightarrow> bool" where
  "is_logging_exn (LoggerError l) = True"
| "is_logging_exn (FormatError t) = True"
| "is_logging_exn x = False"

definition logging_raised :: "pyexn + 'a \<Rightarrow> bool" where
  "logging_raised r = (case r of Inl x \<Rightarrow> is_logging_exn x | Inr v \<Rightarrow> False)"

text \<open>Which of the timer's own exceptions a call raised.\<close>

fun is_already_running :: "pyexn \<Rightarrow> bool" where
  "is_already_running (TimerAlreadyRunningError n d m) = True"
| "is_already_running x = False"

fun is_not_running :: "string \<Rightarrow> pyexn \<Rightarrow> bool" where
  "is_not_running action (TimerNotRunningError n d m a) = (a = action)"
| "is_not_running action x = False"

fun is_timer_exn :: "pyexn \<Rightarrow> bool" where
  "is_timer_exn (TimerAlreadyRunningError n d m) = True"
| "is_timer_exn (TimerNotRunningError n d m a) = True"
| "is_timer_exn x = False"

definition raised :: "(pyexn \<Rightarrow> bool) \<Rightarrow> pyexn + 'a \<Rightarrow> bool" where
  "raised P r = (case r of Inl x \<Rightarrow> P x | Inr v \<Rightarrow> False)"


text \<open>
  The \<open>message\<close> field of what a call raised, when it raised one of the timer's two
  exceptions.
\<close>

fun message_of :: "pyexn \<Rightarrow> string option" where
  "message_of (TimerAlreadyRunningError n d m) = Some m"
| "message_of (TimerNotRunningError n d m a) = Some m"
| "message_of x = None"

definition raised_message :: "pyexn + 'a \<Rightarrow> string option" where
  "raised_message r = (case r of Inl x \<Rightarrow> message_of x | Inr v \<Rightarrow> None)"

text \<open>
  Two outcomes that are identical apart from clock readings: the same returned value,
  or the same exception up to the timestamp it carries and the message rendered from
  it.
\<close>

fun same_exn :: "pyexn \<Rightarrow> pyexn \<Rightarrow> bool" where
  "same_exn (TimerAlreadyRunningError n d m) (TimerAlreadyRunningError n' d' m') = (n = n')"
| "same_exn (TimerNotRunningError n d m a) (TimerNotRunningError n' d' m' a') = (n = n' \<and> a = a')"
| "same_exn x y = (x = y)"

definition same_outcome :: "pyexn + pyval \<Rightarrow> pyexn + pyval \<Rightarrow> bool" where
  "same_outcome r r' =
     (case r of
        Inl x \<Rightarrow> (case r' of Inl y \<Rightarrow> same_exn x y | Inr w \<Rightarrow> False)
      | Inr v \<Rightarrow> (case r' of Inl y \<Rightarrow> False | Inr w \<Rightarrow> v = w))"

subsection \<open>The state after the mutation\<close>

text \<open>
  The state in which \<open>_click\<close> on a timer started at \<open>t0\<close> reaches its logging: the
  performance counter was read, \<open>start_time\<close> cleared when stopping, the sample
  appended. And the state in which \<open>start\<close> on a stopped timer reaches its logging.
\<close>

definition clicked :: "env \<Rightarrow> bool \<Rightarrow> real \<Rightarrow> state \<Rightarrow> state" where
  "clicked e b t0 s =
     (let s1 = s\<lparr>perf_reads := Suc (perf_reads s)\<rparr>;
          s2 = (if b then s1\<lparr>self := (self s1)\<lparr>start_time := None\<rparr>\<rparr> else s1)
      in list_append (recorded_times (self s2)) (perf_counter e (perf_reads s) - t0) s2)"

definition started :: "env \<Rightarrow> state \<Rightarrow> state" where
  "started e s =
     (let s1 = s\<lparr>perf_reads := Suc (perf_reads s)\<rparr>
      in s1\<lparr>self := (self s1)\<lparr>start_time := Some (perf_counter e (perf_reads s))\<rparr>\<rparr>)"

subsection \<open>The samples, and two timers that differ in the logger\<close>

text \<open>
  The list of samples of the state \<open>s\<close>, and what it means for it to have only grown
  on the way to \<open>s'\<close>: the timer refers to the same list object, and the old contents
  are the beginning of the new ones.
\<close>

definition samples :: "state \<Rightarrow> real list" where
  "samples s = heap s (recorded_times (self s))"

definition grown :: "state \<Rightarrow> state \<Rightarrow> bool" where
  "grown s s' \<longleftrightarrow>
     recorded_times (self s') = recorded_times (self s) \<and> prefix (samples s) (samples s')"


text \<open>
  Two states whose timers agree on everything that is not logging: the fields other
  than \<open>logger\<close>, the list objects and the readings of the performance counter taken.
\<close>

definition twin :: "state \<Rightarrow> state \<Rightarrow> bool" where
  "twin s s' \<longleftrightarrow>
     name (self s') = name (self s) \<and> message (self s') = message (self s) \<and>
     start_time (self s') = start_time (self s) \<and>
     recorded_times (self s') = recorded_times (self s) \<and>
     heap s' = heap s \<and> perf_reads s' = perf_reads s"

subsection \<open>The text and the lines of a click\<close>

text \<open>
  The text a message stands for once \<open>_get_logging_message\<close> has resolved it at the
  \<open>k\<close>-th reading of the wall clock, and the number of readings resolving it takes.
\<close>

definition stamp :: "DefaultMessage \<Rightarrow> string" where
  "stamp d = (case d of START \<Rightarrow> ''START: '' | MEASURE \<Rightarrow> ''MEASURED: '' | END \<Rightarrow> ''END: '')"

definition resolved_text :: "env \<Rightarrow> TimerMessage \<Rightarrow> nat \<Rightarrow> string" where
  "resolved_text e m k =
     (case m of
        MNone \<Rightarrow> []
      | MStr x \<Rightarrow> x
      | MDefault d \<Rightarrow> stamp d @ isoformat_seconds (dt_now e k))"

definition stamp_reads :: "TimerMessage \<Rightarrow> nat" where
  "stamp_reads m = (case m of MDefault d \<Rightarrow> 1 | MStr x \<Rightarrow> 0 | MNone \<Rightarrow> 0)"

text \<open>The text before the body and the text after it, newlines included.\<close>

definition lead_text :: "string option \<Rightarrow> string \<Rightarrow> string" where
  "lead_text nm pre =
     (if pre \<noteq> [] then pre @ [newline]
      else (case nm of None \<Rightarrow> [] | Some n \<Rightarrow> (if n \<noteq> [] then n @ '':'' @ [newline] else [])))"

definition tail_text :: "string \<Rightarrow> string" where
  "tail_text post = (if post \<noteq> [] then [newline] @ post else [])"

text \<open>
  The whole text that \<open>_get_logging_message\<close> returns for a body, \<open>k\<close> being the number
  of wall-clock readings taken before the call.
\<close>

definition logged_text ::
  "env \<Rightarrow> Timer \<Rightarrow> TimerMessage \<Rightarrow> TimerMessage \<Rightarrow> nat \<Rightarrow> string \<Rightarrow> string" where
  "logged_text e t p q k body =
     lead_text (name t) (resolved_text e p k) @ body @
     tail_text (resolved_text e q (k + stamp_reads p))"

text \<open>
  The lines that reach a logger out of \<open>ls\<close>: all of them up to and including the
  first on which it raises.
\<close>

fun sent :: "(string \<Rightarrow> bool) \<Rightarrow> string list \<Rightarrow> string list" where
  "sent lg [] = []"
| "sent lg (l # ls) = l # (if lg l then sent lg ls else [])"

subsection \<open>The words of the specification\<close>

text \<open>
  The message of \<open>TimerNotRunningError\<close> in the words of the specification, with the
  action between single quotes.
\<close>

definition spec_not_running_message :: "string \<Rightarrow> string \<Rightarrow> string \<Rightarrow> string" where
  "spec_not_running_message ts action tname =
     ''['' @ ts @ ''] Tried to click '' @ [CHR 0x27] @ action @ [CHR 0x27] @ '' on '' @ tname @
     '' but it wasn't running.''"

text \<open>
  \<open>restart\<close> in the words of the specification: \<open>stop(pre, post)\<close>, and when that
  returned, \<open>start()\<close> with no message.
\<close>

definition stop_then_start :: "env \<Rightarrow> TimerMessage \<Rightarrow> TimerMessage \<Rightarrow> state \<Rightarrow> pyval outcome" where
  "stop_then_start e pre post s =
     (case fst (stop e pre post s) of
        Inl x \<Rightarrow> stop e pre post s
      | Inr v \<Rightarrow> start e MNone (snd (stop e pre post s)))"

text \<open>
  The lines of a click in the words of the specification, with the empty string
  counted as no message: the lines before the body, for the pre-message \<open>pre\<close>
  resolved at the \<open>k\<close>-th reading of the wall clock, and the lines after it.
\<close>

definition name_lines :: "Timer \<Rightarrow> string list" where
  "name_lines t =
     (case name t of None \<Rightarrow> [] | Some n \<Rightarrow> (if n \<noteq> [] then split_nl (n @ '':'') else []))"

definition leading_lines :: "env \<Rightarrow> Timer \<Rightarrow> TimerMessage \<Rightarrow> nat \<Rightarrow> string list" where
  "leading_lines e t pre k =
     (case pre of
        MDefault d \<Rightarrow> [stamp d @ isoformat_seconds (dt_now e k)]
      | MStr x \<Rightarrow> (if x \<noteq> [] then split_nl x else name_lines t)
      | MNone \<Rightarrow> name_lines t)"

definition trailing_lines :: "env \<Rightarrow> TimerMessage \<Rightarrow> nat \<Rightarrow> string list" where
  "trailing_lines e post k =
     (case post of
        MDefault d \<Rightarrow> [stamp d @ isoformat_seconds (dt_now e k)]
      | MStr x \<Rightarrow> (if x \<noteq> [] then split_nl x else [])
      | MNone \<Rightarrow> [])"

subsection \<open>A concrete setting\<close>

text \<open>
  Inputs on which the statements below are evaluated. The \<open>n\<close>-th reading of
  \<open>perf_counter()\<close> is \<open>n\<close> seconds and \<open>datetime.now()\<close> is 2024-01-02 03:04:05 at
  every reading. The template \<open>done\<close> has no replacement field and formats to itself;
  on every other template \<open>str.format\<close> raises in this setting, as Python does on the
  malformed \<open>{\<close>. One logger returns on every line, the other raises on every line.
  The timer is named \<open>t\<close> and has the template \<open>done\<close>; \<open>demo_timer\<close> is fresh from
  its constructor, \<open>demo_running\<close> has been started.
\<close>

definition instant :: datetime where
  "instant = \<lparr>year = 2024, month = 1, day = 2, hour = 3, minute = 4, second = 5, microsecond = 0\<rparr>"

definition env0 :: env where
  "env0 = \<lparr>perf_counter = (\<lambda>n. real n), dt_now = (\<lambda>n. instant),
            str_format = (\<lambda>t x. if t = ''done'' then Some ''done'' else None)\<rparr>"

definition accepting :: "string \<Rightarrow> bool" where
  "accepting line = True"

definition refusing :: "string \<Rightarrow> bool" where
  "refusing line = False"

definition blank :: state where
  "blank = \<lparr>self = \<lparr>name = None, message = [], logger = None, start_time = None,
                      recorded_times = 0\<rparr>,
             heap = (\<lambda>a. []), calls = [], perf_reads = 0, now_reads = 0\<rparr>"

definition demo_timer :: "(string \<Rightarrow> bool) option \<Rightarrow> state" where
  "demo_timer lg = new_Timer (Some ''t'') ''done'' lg None 0 blank"

definition demo_running :: "(string \<Rightarrow> bool) option \<Rightarrow> state" where
  "demo_running lg = snd (start env0 MNone (demo_timer lg))"

section \<open>How the methods change the state\<close>

text \<open>
  Logging touches neither the timer's fields nor the list of samples nor the
  performance counter; it adds to the logger's calls and may read the wall clock.
\<close>

lemma logging_raised_simps [simp]:
  "logging_raised (Inl x) = is_logging_exn x" "logging_raised (Inr v) = False"
  by (simp_all add: logging_raised_def)

lemma log_lines_frame [simp]:
  "self (snd (log_lines lg ls s)) = self s"
  "heap (snd (log_lines lg ls s)) = heap s"
  "perf_reads (snd (log_lines lg ls s)) = perf_reads s"
  "now_reads (snd (log_lines lg ls s)) = now_reads s"
  by (induction ls arbitrary: s; auto simp: call_logger_def split: prod.splits sum.splits if_splits)+

lemma log_lines_fst:
  "fst (log_lines lg ls s) = Inr () \<or> logging_raised (fst (log_lines lg ls s))"
  by (induction ls arbitrary: s) (auto simp: call_logger_def split: prod.splits sum.splits if_splits)

lemma log_lines_accepting:
  "\<forall>l \<in> set ls. lg l \<Longrightarrow> log_lines lg ls s = (Inr (), s\<lparr>calls := calls s @ ls\<rparr>)"
  by (induction ls arbitrary: s) (simp_all add: call_logger_def)

lemma timestamp_to_msg_eq:
  "timestamp_to_msg e d s =
     ((case d of START \<Rightarrow> ''START: '' | MEASURE \<Rightarrow> ''MEASURED: '' | END \<Rightarrow> ''END: '') @
        isoformat_seconds (dt_now e (now_reads s)),
      s\<lparr>now_reads := Suc (now_reads s)\<rparr>)"
  by (cases d) (simp_all add: timestamp_to_msg_def read_dt_now_def)

lemma Timer_log_MStr:
  "logger (self s) = Some lg \<Longrightarrow>
   Timer_log e (MStr m) s =
     (case log_lines lg (split_nl m) s of (Inl x, s1) \<Rightarrow> (Inl x, s1) | (Inr u, s1) \<Rightarrow> (Inr PSelf, s1))"
  by (simp add: Timer_log_def)

lemma Timer_log_frame [simp]:
  "self (snd (Timer_log e m s)) = self s"
  "heap (snd (Timer_log e m s)) = heap s"
  "perf_reads (snd (Timer_log e m s)) = perf_reads s"
proof -
  have "self (snd (Timer_log e m s)) = self s \<and> heap (snd (Timer_log e m s)) = heap s \<and>
        perf_reads (snd (Timer_log e m s)) = perf_reads s"
  proof (cases "logger (self s)")
    case None
    then show ?thesis by (simp add: Timer_log_def)
  next
    case (Some lg)
    show ?thesis
    proof (cases m)
      case MNone
      with Some show ?thesis by (simp add: Timer_log_def)
    next
      case (MStr x)
      obtain r1 s1 where l: "log_lines lg (split_nl x) s = (r1, s1)"
        by (cases "log_lines lg (split_nl x) s")
      with log_lines_frame[of lg "split_nl x" s]
      have "self s1 = self s" "heap s1 = heap s" "perf_reads s1 = perf_reads s" by simp_all
      with Some MStr l show ?thesis by (cases r1) (simp_all add: Timer_log_def)
    next
      case (MDefault d)
      with Some show ?thesis
        by (simp add: Timer_log_def timestamp_to_msg_eq call_logger_def)
    qed
  qed
  then show "self (snd (Timer_log e m s)) = self s" "heap (snd (Timer_log e m s)) = heap s"
    "perf_reads (snd (Timer_log e m s)) = perf_reads s" by simp_all
qed

lemma Timer_log_fst:
  "fst (Timer_log e m s) = Inr PSelf \<or> logging_raised (fst (Timer_log e m s))"
proof (cases "logger (self s)")
  case None
  then show ?thesis by (simp add: Timer_log_def)
next
  case (Some lg)
  show ?thesis
  proof (cases m)
    case MNone
    with Some show ?thesis by (simp add: Timer_log_def)
  next
    case (MStr x)
    obtain r1 s1 where l: "log_lines lg (split_nl x) s = (r1, s1)"
      by (cases "log_lines lg (split_nl x) s")
    with log_lines_fst[of lg "split_nl x" s] have "r1 = Inr () \<or> logging_raised r1" by simp
    with Some MStr l show ?thesis by (cases r1) (simp_all add: Timer_log_def)
  next
    case (MDefault d)
    with Some show ?thesis
      by (simp add: Timer_log_def timestamp_to_msg_eq call_logger_def)
  qed
qed

lemma Timer_log_no_logger:
  "logger (self s) = None \<Longrightarrow> Timer_log e m s = (Inr PSelf, s)"
  by (simp add: Timer_log_def)

lemma resolve_frame [simp]:
  "self (snd (resolve e m s)) = self s"
  "heap (snd (resolve e m s)) = heap s"
  "perf_reads (snd (resolve e m s)) = perf_reads s"
  "calls (snd (resolve e m s)) = calls s"
  by (cases m; simp add: resolve_def timestamp_to_msg_eq)+

lemma get_logging_message_frame [simp]:
  "self (snd (get_logging_message e x p q s)) = self s"
  "heap (snd (get_logging_message e x p q s)) = heap s"
  "perf_reads (snd (get_logging_message e x p q s)) = perf_reads s"
  "calls (snd (get_logging_message e x p q s)) = calls s"
proof -
  obtain p' s1 where r1: "resolve e p s = (p', s1)" by (cases "resolve e p s")
  obtain q' s2 where r2: "resolve e q s1 = (q', s2)" by (cases "resolve e q s1")
  from r1 resolve_frame[of e p s]
  have f1: "self s1 = self s" "heap s1 = heap s" "perf_reads s1 = perf_reads s" "calls s1 = calls s"
    by simp_all
  from r2 resolve_frame[of e q s1]
  have f2: "self s2 = self s1" "heap s2 = heap s1" "perf_reads s2 = perf_reads s1" "calls s2 = calls s1"
    by simp_all
  have "snd (get_logging_message e x p q s) = s2"
    by (simp add: get_logging_message_def r1 r2 Let_def split: option.splits)
  with f1 f2 show "self (snd (get_logging_message e x p q s)) = self s"
  "heap (snd (get_logging_message e x p q s)) = heap s"
  "perf_reads (snd (get_logging_message e x p q s)) = perf_reads s"
  "calls (snd (get_logging_message e x p q s)) = calls s" by simp_all
qed

lemma get_logging_message_fst:
  "(\<exists>m. fst (get_logging_message e x p q s) = Inr m) \<or>
   logging_raised (fst (get_logging_message e x p q s))"
  by (simp add: get_logging_message_def Let_def split: prod.splits option.splits)

subsection \<open>Clicks and starts\<close>

lemma click_stopped:
  "start_time (self s) = None \<Longrightarrow>
   click e b p q a s =
     (Inl (new_TimerNotRunningError (timer_name (self s)) (dt_now e (now_reads s)) a),
      s\<lparr>now_reads := Suc (now_reads s)\<rparr>)"
  by (simp add: click_def read_dt_now_def)

lemma list_mutate_fields [simp]:
  "self (list_mutate a f s) = self s"
  "heap (list_mutate a f s) = (heap s)(a := f (heap s a))"
  "calls (list_mutate a f s) = calls s"
  "perf_reads (list_mutate a f s) = perf_reads s"
  "now_reads (list_mutate a f s) = now_reads s"
  by (simp_all add: list_mutate_def)

lemma list_append_fields [simp]:
  "self (list_append a x s) = self s"
  "heap (list_append a x s) = (heap s)(a := heap s a @ [x])"
  "calls (list_append a x s) = calls s"
  "perf_reads (list_append a x s) = perf_reads s"
  "now_reads (list_append a x s) = now_reads s"
  by (simp_all add: list_append_def)

lemma click_running_no_logger:
  "start_time (self s) = Some t0 \<Longrightarrow> logger (self s) = None \<Longrightarrow>
   click e b p q a s = (Inr (PFloat (perf_counter e (perf_reads s) - t0)), clicked e b t0 s)"
  by (simp add: click_def read_perf_counter_def Let_def clicked_def)

lemma click_running_logger:
  "start_time (self s) = Some t0 \<Longrightarrow> logger (self s) = Some lg \<Longrightarrow>
   click e b p q a s =
     (case get_logging_message e (perf_counter e (perf_reads s) - t0) p q (clicked e b t0 s) of
        (Inl x, s4) \<Rightarrow> (Inl x, s4)
      | (Inr m, s4) \<Rightarrow>
          (case Timer_log e (MStr m) s4 of
             (Inl x, s5) \<Rightarrow> (Inl x, s5)
           | (Inr v, s5) \<Rightarrow> (Inr (PFloat (perf_counter e (perf_reads s) - t0)), s5)))"
  by (simp add: click_def read_perf_counter_def Let_def clicked_def)

lemma clicked_fields [simp]:
  "self (clicked e b t0 s) = (if b then (self s)\<lparr>start_time := None\<rparr> else self s)"
  "heap (clicked e b t0 s) =
     (heap s)(recorded_times (self s) :=
        heap s (recorded_times (self s)) @ [perf_counter e (perf_reads s) - t0])"
  "perf_reads (clicked e b t0 s) = Suc (perf_reads s)"
  "calls (clicked e b t0 s) = calls s"
  "now_reads (clicked e b t0 s) = now_reads s"
  by (simp_all add: clicked_def Let_def)

lemma click_running:
  assumes "start_time (self s) = Some t0"
  shows "self (snd (click e b p q a s)) = self (clicked e b t0 s)"
    and "heap (snd (click e b p q a s)) = heap (clicked e b t0 s)"
    and "perf_reads (snd (click e b p q a s)) = Suc (perf_reads s)"
    and "fst (click e b p q a s) = Inr (PFloat (perf_counter e (perf_reads s) - t0)) \<or>
         logging_raised (fst (click e b p q a s))"
proof -
  let ?x = "perf_counter e (perf_reads s) - t0"
  let ?c = "clicked e b t0 s"
  have "self (snd (click e b p q a s)) = self ?c \<and> heap (snd (click e b p q a s)) = heap ?c \<and>
        perf_reads (snd (click e b p q a s)) = Suc (perf_reads s) \<and>
        (fst (click e b p q a s) = Inr (PFloat ?x) \<or> logging_raised (fst (click e b p q a s)))"
  proof (cases "logger (self s)")
    case None
    with assms show ?thesis by (simp add: click_running_no_logger)
  next
    case (Some lg)
    obtain r4 s4 where g: "get_logging_message e ?x p q ?c = (r4, s4)"
      by (cases "get_logging_message e ?x p q ?c")
    with get_logging_message_frame[of e ?x p q ?c]
    have f4: "self s4 = self ?c" "heap s4 = heap ?c" "perf_reads s4 = Suc (perf_reads s)"
      by simp_all
    show ?thesis
    proof (cases r4)
      case (Inl x)
      with get_logging_message_fst[of e ?x p q ?c] g have "is_logging_exn x" by simp
      with assms Some g Inl f4 show ?thesis by (simp add: click_running_logger)
    next
      case (Inr m)
      obtain r5 s5 where l: "Timer_log e (MStr m) s4 = (r5, s5)"
        by (cases "Timer_log e (MStr m) s4")
      with Timer_log_frame[of e "MStr m" s4] f4
      have f5: "self s5 = self ?c" "heap s5 = heap ?c" "perf_reads s5 = Suc (perf_reads s)"
        by simp_all
      from l Timer_log_fst[of e "MStr m" s4] have "r5 = Inr PSelf \<or> logging_raised r5" by simp
      with assms Some g Inr l f5 show ?thesis
        by (cases r5) (simp_all add: click_running_logger)
    qed
  qed
  then show "self (snd (click e b p q a s)) = self (clicked e b t0 s)"
    and "heap (snd (click e b p q a s)) = heap (clicked e b t0 s)"
    and "perf_reads (snd (click e b p q a s)) = Suc (perf_reads s)"
    and "fst (click e b p q a s) = Inr (PFloat (perf_counter e (perf_reads s) - t0)) \<or>
         logging_raised (fst (click e b p q a s))" by simp_all
qed

lemma start_running:
  "start_time (self s) = Some t0 \<Longrightarrow>
   start e m s =
     (Inl (new_TimerAlreadyRunningError (timer_name (self s)) (dt_now e (now_reads s))),
      s\<lparr>now_reads := Suc (now_reads s)\<rparr>)"
  by (simp add: start_def read_dt_now_def)

lemma start_stopped_quiet:
  "start_time (self s) = None \<Longrightarrow> \<not> truthy m \<or> logger (self s) = None \<Longrightarrow>
   start e m s = (Inr PSelf, started e s)"
  by (auto simp: start_def read_perf_counter_def Let_def started_def)

lemma start_stopped_logging:
  "start_time (self s) = None \<Longrightarrow> truthy m \<Longrightarrow> logger (self s) = Some lg \<Longrightarrow>
   start e m s =
     (case Timer_log e m (started e s) of
        (Inl x, s3) \<Rightarrow> (Inl x, s3)
      | (Inr v, s3) \<Rightarrow> (Inr PSelf, s3))"
  by (simp add: start_def read_perf_counter_def Let_def started_def)

lemma started_fields [simp]:
  "self (started e s) = (self s)\<lparr>start_time := Some (perf_counter e (perf_reads s))\<rparr>"
  "heap (started e s) = heap s"
  "perf_reads (started e s) = Suc (perf_reads s)"
  "calls (started e s) = calls s"
  "now_reads (started e s) = now_reads s"
  by (simp_all add: started_def Let_def)

lemma start_stopped:
  assumes "start_time (self s) = None"
  shows "self (snd (start e m s)) = self (started e s)"
    and "heap (snd (start e m s)) = heap s"
    and "perf_reads (snd (start e m s)) = Suc (perf_reads s)"
    and "fst (start e m s) = Inr PSelf \<or> logging_raised (fst (start e m s))"
proof -
  have "self (snd (start e m s)) = self (started e s) \<and> heap (snd (start e m s)) = heap s \<and>
        perf_reads (snd (start e m s)) = Suc (perf_reads s) \<and>
        (fst (start e m s) = Inr PSelf \<or> logging_raised (fst (start e m s)))"
  proof (cases "truthy m \<and> logger (self s) \<noteq> None")
    case False
    with assms show ?thesis by (auto simp: start_stopped_quiet)
  next
    case True
    then obtain lg where lg: "logger (self s) = Some lg" and m: "truthy m" by auto
    obtain r3 s3 where l: "Timer_log e m (started e s) = (r3, s3)"
      by (cases "Timer_log e m (started e s)")
    with Timer_log_frame[of e m "started e s"]
    have f: "self s3 = self (started e s)" "heap s3 = heap s" "perf_reads s3 = Suc (perf_reads s)"
      by simp_all
    from l Timer_log_fst[of e m "started e s"] have "r3 = Inr PSelf \<or> logging_raised r3" by simp
    with assms lg m l f show ?thesis by (cases r3) (simp_all add: start_stopped_logging)
  qed
  then show "self (snd (start e m s)) = self (started e s)"
    and "heap (snd (start e m s)) = heap s"
    and "perf_reads (snd (start e m s)) = Suc (perf_reads s)"
    and "fst (start e m s) = Inr PSelf \<or> logging_raised (fst (start e m s))" by simp_all
qed

subsection \<open>Timestamps and fields of the concrete setting\<close>

lemma zpad_2: "zpad 2 n = [digit_char (n div 10), digit_char n]"
proof -
  have e: "(2::nat) = Suc (Suc 0)" by simp
  show ?thesis by (subst e) simp
qed

lemma zpad_4:
  "zpad 4 n = [digit_char (n div 1000), digit_char (n div 100), digit_char (n div 10), digit_char n]"
proof -
  have e: "(4::nat) = Suc (Suc (Suc (Suc 0)))" by simp
  show ?thesis by (subst e) (simp add: div_mult2_eq [symmetric])
qed

lemma zpad_6:
  "zpad 6 n = [digit_char (n div 100000), digit_char (n div 10000), digit_char (n div 1000),
               digit_char (n div 100), digit_char (n div 10), digit_char n]"
proof -
  have e: "(6::nat) = Suc (Suc (Suc (Suc (Suc (Suc 0)))))" by simp
  show ?thesis by (subst e) (simp add: div_mult2_eq [symmetric])
qed

lemma isoformat_seconds_instant: "isoformat_seconds instant = ''2024-01-02T03:04:05''"
  by (simp add: isoformat_seconds_def instant_def zpad_2 zpad_4 digit_char_def)

lemma isoformat_instant: "isoformat instant = ''2024-01-02T03:04:05''"
proof -
  have "microsecond instant = 0" by (simp add: instant_def)
  then show ?thesis by (simp add: isoformat_def isoformat_seconds_instant)
qed

lemma blank_fields:
  "self blank = \<lparr>name = None, message = [], logger = None, start_time = None, recorded_times = 0\<rparr>"
  "heap blank = (\<lambda>a. [])" "calls blank = []" "perf_reads blank = 0" "now_reads blank = 0"
  by (simp_all add: blank_def)

lemma env0_fields:
  "perf_counter env0 n = real n" "dt_now env0 n = instant"
  "str_format env0 t x = (if t = ''done'' then Some ''done'' else None)"
  by (simp_all add: env0_def)

subsection \<open>Kinds of outcome\<close>

lemma raised_simps [simp]: "raised P (Inl x) = P x" "raised P (Inr v) = False"
  by (simp_all add: raised_def)

lemma logging_raised_not_timer:
  "logging_raised r \<Longrightarrow> \<not> raised is_timer_exn r \<and> \<not> raised is_already_running r \<and>
     \<not> raised (is_not_running a) r \<and> (\<forall>v. r \<noteq> Inr v)"
proof (cases r)
  case (Inl x)
  assume "logging_raised r"
  with Inl show ?thesis by (cases x) simp_all
next
  case (Inr v)
  assume "logging_raised r"
  with Inr show ?thesis by simp
qed

lemma demo_timer_fields:
  "self (demo_timer lg) =
     \<lparr>name = Some ''t'', message = ''done'', logger = lg, start_time = None, recorded_times = 0\<rparr>"
  "heap (demo_timer lg) a = []" "calls (demo_timer lg) = []"
  "perf_reads (demo_timer lg) = 0" "now_reads (demo_timer lg) = 0"
  by (simp_all add: demo_timer_def new_Timer_def blank_def)

subsection \<open>The field \<open>start_time\<close> after each method\<close>

lemma stop_after [simp]: "start_time (self (snd (stop e p q s))) = None"
proof (cases "start_time (self s)")
  case None
  then show ?thesis by (simp add: stop_def click_stopped)
next
  case (Some t0)
  from click_running(1) [OF this, of e True p q "''stop''"] show ?thesis by (simp add: stop_def)
qed

lemma measure_after [simp]:
  "start_time (self (snd (Timer_measure e p q s))) = start_time (self s)"
proof (cases "start_time (self s)")
  case None
  then show ?thesis by (simp add: Timer_measure_def click_stopped)
next
  case (Some t0)
  from click_running(1) [OF this, of e False p q "''measure''"] show ?thesis
    by (simp add: Timer_measure_def)
qed

lemma start_after:
  "start_time (self (snd (start e m s))) =
     (case start_time (self s) of None \<Rightarrow> Some (perf_counter e (perf_reads s)) | Some t0 \<Rightarrow> Some t0)"
proof (cases "start_time (self s)")
  case None
  from start_stopped(1) [OF this, of e m] None show ?thesis by simp
next
  case (Some t0)
  then show ?thesis by (simp add: start_running)
qed

lemma exit_after [simp]: "start_time (self (snd (Timer_exit e s))) = None"
proof (cases "start_time (self s)")
  case None
  then show ?thesis by (simp add: Timer_exit_def)
next
  case (Some t0)
  obtain r s1 where st: "stop e MNone MNone s = (r, s1)" by (cases "stop e MNone MNone s")
  with stop_after [of e MNone MNone s] have "start_time (self s1) = None" by simp
  with Some st show ?thesis by (cases r) (simp_all add: Timer_exit_def)
qed

lemma enter_snd: "snd (Timer_enter e s) = snd (start e MNone s)"
  by (cases "start e MNone s" rule: prod.exhaust; cases "fst (start e MNone s)")
     (auto simp: Timer_enter_def)

lemma restart_after:
  "(\<forall>v. fst (restart e p q s) = Inr v \<longrightarrow> start_time (self (snd (restart e p q s))) \<noteq> None) \<and>
   (\<forall>x. fst (restart e p q s) = Inl x \<longrightarrow> start_time (self (snd (restart e p q s))) = None)"
proof -
  obtain r s1 where st: "stop e p q s = (r, s1)" by (cases "stop e p q s")
  with stop_after [of e p q s] have n: "start_time (self s1) = None" by simp
  show ?thesis
  proof (cases r)
    case (Inl x)
    with st n show ?thesis by (simp add: restart_def)
  next
    case (Inr v)
    with st n show ?thesis by (simp add: restart_def start_stopped_quiet)
  qed
qed

subsection \<open>The text that is logged\<close>

lemma stamp_not_empty [simp]: "stamp d \<noteq> []"
  by (cases d) (simp_all add: stamp_def)

lemma resolve_eq:
  "resolve e m s =
     ((if resolved_text e m (now_reads s) \<noteq> [] then MStr (resolved_text e m (now_reads s))
       else m),
      s\<lparr>now_reads := now_reads s + stamp_reads m\<rparr>)"
proof (cases m)
  case MNone
  then show ?thesis by (simp add: resolve_def resolved_text_def stamp_reads_def)
next
  case (MStr x)
  then show ?thesis by (simp add: resolve_def resolved_text_def stamp_reads_def)
next
  case (MDefault d)
  then show ?thesis
    by (cases d) (simp_all add: resolve_def resolved_text_def stamp_reads_def stamp_def
        timestamp_to_msg_eq)
qed

lemma resolved_truthy:
  "truthy (if resolved_text e m k \<noteq> [] then MStr (resolved_text e m k) else m) =
     (resolved_text e m k \<noteq> [])"
  by (cases m) (simp_all add: resolved_text_def)

lemma resolved_text_of:
  "resolved_text e m k \<noteq> [] \<Longrightarrow>
   text_of (if resolved_text e m k \<noteq> [] then MStr (resolved_text e m k) else m) =
     resolved_text e m k"
  by (simp add: text_of_def)

lemma get_logging_message_eq:
  "get_logging_message e x p q s =
     (case str_format e (message (self s)) x of
        None \<Rightarrow>
          (Inl (FormatError (message (self s))),
           s\<lparr>now_reads := now_reads s + stamp_reads p + stamp_reads q\<rparr>)
      | Some body \<Rightarrow>
          (Inr (lead_text (name (self s)) (resolved_text e p (now_reads s)) @ body @
                tail_text (resolved_text e q (now_reads s + stamp_reads p))),
           s\<lparr>now_reads := now_reads s + stamp_reads p + stamp_reads q\<rparr>))"
proof -
  let ?P = "resolved_text e p (now_reads s)"
  let ?Q = "resolved_text e q (now_reads s + stamp_reads p)"
  let ?s1 = "s\<lparr>now_reads := now_reads s + stamp_reads p\<rparr>"
  let ?s2 = "s\<lparr>now_reads := now_reads s + stamp_reads p + stamp_reads q\<rparr>"
  have r1: "resolve e p s = ((if ?P \<noteq> [] then MStr ?P else p), ?s1)" by (rule resolve_eq)
  have r2: "resolve e q ?s1 = ((if ?Q \<noteq> [] then MStr ?Q else q), ?s2)"
    by (simp add: resolve_eq)
  show ?thesis
  proof (cases "str_format e (message (self s)) x")
    case None
    then show ?thesis by (simp add: get_logging_message_def r1 r2 Let_def)
  next
    case (Some body)
    have tp: "truthy (if ?P \<noteq> [] then MStr ?P else p) = (?P \<noteq> [])" by (rule resolved_truthy)
    have tq: "truthy (if ?Q \<noteq> [] then MStr ?Q else q) = (?Q \<noteq> [])" by (rule resolved_truthy)
    show ?thesis
      unfolding get_logging_message_def r1 r2 Let_def prod.case tp tq
      using Some by (simp add: lead_text_def tail_text_def text_of_def)
  qed
qed

subsection \<open>Splitting into lines\<close>

lemma split_nl_not_Nil [simp]: "split_nl xs \<noteq> []"
  by (induction xs) (auto split: list.splits)

lemma split_nl_append: "split_nl (xs @ newline # ys) = split_nl xs @ split_nl ys"
proof (induction xs)
  case Nil
  show ?case by simp
next
  case (Cons c xs)
  obtain l ls where s: "split_nl xs = l # ls" by (cases "split_nl xs") simp_all
  with Cons show ?case by simp
qed

lemma split_nl_single: "newline \<notin> set xs \<Longrightarrow> split_nl xs = [xs]"
  by (induction xs) auto

lemma digit_char_not_newline [simp]: "digit_char d \<noteq> newline" "newline \<noteq> digit_char d"
proof -
  have "d mod 10 < length ''0123456789''" by simp
  then have "''0123456789'' ! (d mod 10) \<in> set ''0123456789''" by (rule nth_mem)
  then show "digit_char d \<noteq> newline" "newline \<noteq> digit_char d"
    by (auto simp: digit_char_def newline_def)
qed

lemma zpad_no_newline [simp]: "newline \<notin> set (zpad w n)"
  by (induction w arbitrary: n) simp_all

lemma isoformat_seconds_no_newline [simp]: "newline \<notin> set (isoformat_seconds d)"
  by (simp add: isoformat_seconds_def newline_def [symmetric]) (simp add: newline_def)

lemma stamp_no_newline [simp]: "newline \<notin> set (stamp d)"
  by (cases d) (simp_all add: stamp_def newline_def)

subsection \<open>A click with a logger\<close>

lemma log_lines_refused:
  "\<not> lg l \<Longrightarrow> log_lines lg (l # ls) s = (Inl (LoggerError l), s\<lparr>calls := calls s @ [l]\<rparr>)"
  by (simp add: call_logger_def)

lemma click_running_logger_eq:
  assumes "start_time (self s) = Some t0" and "logger (self s) = Some lg"
  shows "click e b p q a s =
     (case str_format e (message (self s)) (perf_counter e (perf_reads s) - t0) of
        None \<Rightarrow>
          (Inl (FormatError (message (self s))),
           (clicked e b t0 s)\<lparr>now_reads := now_reads s + stamp_reads p + stamp_reads q\<rparr>)
      | Some body \<Rightarrow>
          (case log_lines lg (split_nl (logged_text e (self s) p q (now_reads s) body))
                  ((clicked e b t0 s)\<lparr>now_reads := now_reads s + stamp_reads p + stamp_reads q\<rparr>) of
             (Inl y, s5) \<Rightarrow> (Inl y, s5)
           | (Inr u, s5) \<Rightarrow> (Inr (PFloat (perf_counter e (perf_reads s) - t0)), s5)))"
proof -
  let ?x = "perf_counter e (perf_reads s) - t0"
  let ?c = "clicked e b t0 s"
  let ?c' = "?c\<lparr>now_reads := now_reads s + stamp_reads p + stamp_reads q\<rparr>"
  have n: "name (self ?c) = name (self s)" "message (self ?c) = message (self s)"
    "logger (self ?c) = Some lg" "now_reads ?c = now_reads s"
    using assms by simp_all
  show ?thesis
  proof (cases "str_format e (message (self s)) ?x")
    case None
    with assms n show ?thesis
      by (simp add: click_running_logger get_logging_message_eq)
  next
    case (Some body)
    have l: "logger (self ?c') = Some lg" using n by simp
    from assms n Some show ?thesis
      by (simp add: click_running_logger get_logging_message_eq Timer_log_MStr [OF l]
          logged_text_def split: prod.splits sum.splits)
  qed
qed

subsection \<open>The started timer of the concrete setting, and restart\<close>

lemma demo_running_fields:
  "self (demo_running lg) =
     \<lparr>name = Some ''t'', message = ''done'', logger = lg, start_time = Some 0, recorded_times = 0\<rparr>"
  "heap (demo_running lg) a = []" "calls (demo_running lg) = []"
  "perf_reads (demo_running lg) = Suc 0" "now_reads (demo_running lg) = 0"
proof -
  have "start_time (self (demo_timer lg)) = None" by (simp add: demo_timer_fields)
  then have "demo_running lg = started env0 (demo_timer lg)"
    by (simp add: demo_running_def start_stopped_quiet)
  then show "self (demo_running lg) =
     \<lparr>name = Some ''t'', message = ''done'', logger = lg, start_time = Some 0, recorded_times = 0\<rparr>"
  "heap (demo_running lg) a = []" "calls (demo_running lg) = []"
  "perf_reads (demo_running lg) = Suc 0" "now_reads (demo_running lg) = 0"
    by (simp_all add: demo_timer_fields env0_fields)
qed

lemma restart_stopped:
  "start_time (self s) = None \<Longrightarrow> restart e p q s = stop e p q s"
  by (simp add: restart_def stop_def click_stopped)

lemma restart_returned:
  "stop e p q s = (Inr v, s1) \<Longrightarrow> restart e p q s = (Inr PSelf, started e s1)"
proof -
  assume st: "stop e p q s = (Inr v, s1)"
  with stop_after [of e p q s] have "start_time (self s1) = None" by simp
  with st show ?thesis by (simp add: restart_def start_stopped_quiet)
qed

lemma restart_raised:
  "stop e p q s = (Inl x, s1) \<Longrightarrow> restart e p q s = (Inl x, s1)"
  by (simp add: restart_def)

lemma stop_running_no_logger:
  "start_time (self s) = Some t0 \<Longrightarrow> logger (self s) = None \<Longrightarrow>
   stop e p q s = (Inr (PFloat (perf_counter e (perf_reads s) - t0)), clicked e True t0 s)"
  by (simp add: stop_def click_running_no_logger)

lemma demo_lines:
  "split_nl (logged_text env0 (self (demo_running lg)) MNone MNone k ''done'') = [''t:'', ''done'']"
  by (simp add: logged_text_def demo_running_fields resolved_text_def lead_text_def tail_text_def
      newline_def)

lemma click_demo_refusing:
  "click env0 b MNone MNone a (demo_running (Some refusing)) =
     (Inl (LoggerError ''t:''),
      (clicked env0 b 0 (demo_running (Some refusing)))\<lparr>now_reads := 0, calls := [''t:'']\<rparr>)"
proof -
  have h: "start_time (self (demo_running (Some refusing))) = Some 0"
    and l: "logger (self (demo_running (Some refusing))) = Some refusing"
    by (simp_all add: demo_running_fields)
  show ?thesis
    unfolding click_running_logger_eq [OF h l]
    by (simp add: demo_running_fields env0_fields demo_lines [simplified demo_running_fields]
        stamp_reads_def call_logger_def refusing_def)
qed

lemma start_demo_refusing:
  "start env0 (MStr ''hi'') (demo_timer (Some refusing)) =
     (Inl (LoggerError ''hi''), (started env0 (demo_timer (Some refusing)))\<lparr>calls := [''hi'']\<rparr>)"
proof -
  have h: "start_time (self (demo_timer (Some refusing))) = None"
    and l: "logger (self (demo_timer (Some refusing))) = Some refusing"
    by (simp_all add: demo_timer_fields)
  have l': "logger (self (started env0 (demo_timer (Some refusing)))) = Some refusing"
    by (simp add: demo_timer_fields)
  have t: "truthy (MStr ''hi'')" by simp
  show ?thesis
    unfolding start_stopped_logging [OF h t l] Timer_log_MStr [OF l']
    by (simp add: newline_def call_logger_def refusing_def demo_timer_fields)
qed

subsection \<open>Entering and leaving a block\<close>

lemma enter_returned:
  assumes "Timer_enter e s = (Inr v, s1)"
  shows "v = PNone" and "start_time (self s) = None" and "s1 = started e s"
proof -
  obtain r s' where st: "start e MNone s = (r, s')" by (cases "start e MNone s")
  from assms st obtain w where r: "r = Inr w" and s': "s' = s1" and v: "v = PNone"
    by (cases r) (simp_all add: Timer_enter_def)
  show "v = PNone" by (rule v)
  show n: "start_time (self s) = None"
  proof (cases "start_time (self s)")
    case None
    then show ?thesis .
  next
    case (Some t0)
    with st r show ?thesis by (simp add: start_running)
  qed
  from n st s' show "s1 = started e s" by (simp add: start_stopped_quiet)
qed

lemma exit_stopped: "start_time (self s) = None \<Longrightarrow> Timer_exit e s = (Inr PNone, s)"
  by (simp add: Timer_exit_def)

lemma exit_running:
  assumes "start_time (self s) = Some t0"
  shows "snd (Timer_exit e s) = snd (stop e MNone MNone s)"
    and "fst (Timer_exit e s) = Inr PNone \<or> logging_raised (fst (Timer_exit e s))"
    and "logger (self s) = None \<Longrightarrow> fst (Timer_exit e s) = Inr PNone"
proof -
  obtain r s1 where st: "stop e MNone MNone s = (r, s1)" by (cases "stop e MNone MNone s")
  from click_running(4) [OF assms, of e True MNone MNone "''stop''"] st
  have r: "r = Inr (PFloat (perf_counter e (perf_reads s) - t0)) \<or> logging_raised r"
    by (simp add: stop_def)
  from assms st show "snd (Timer_exit e s) = snd (stop e MNone MNone s)"
    by (cases r) (simp_all add: Timer_exit_def)
  from assms st r show "fst (Timer_exit e s) = Inr PNone \<or> logging_raised (fst (Timer_exit e s))"
    by (cases r) (auto simp: Timer_exit_def)
  show "fst (Timer_exit e s) = Inr PNone" if "logger (self s) = None"
    using assms that by (simp add: Timer_exit_def stop_running_no_logger)
qed

lemma with_Timer_entered:
  assumes "Timer_enter e s = (Inr v, s1)" and "body v s1 = (r, s2)"
  shows "snd (with_Timer e body s) = snd (Timer_exit e s2)"
    and "fst (Timer_exit e s2) = Inr PNone \<Longrightarrow> fst (with_Timer e body s) = r"
    and "fst (Timer_exit e s2) = Inl x \<Longrightarrow> fst (with_Timer e body s) = Inl x"
proof -
  obtain w s3 where ex: "Timer_exit e s2 = (w, s3)" by (cases "Timer_exit e s2")
  from assms ex show "snd (with_Timer e body s) = snd (Timer_exit e s2)"
    by (cases w; cases r) (simp_all add: with_Timer_def)
  from assms ex show "fst (with_Timer e body s) = r" if "fst (Timer_exit e s2) = Inr PNone"
    using that by (cases r) (simp_all add: with_Timer_def)
  from assms ex show "fst (with_Timer e body s) = Inl x" if "fst (Timer_exit e s2) = Inl x"
    using that by (simp add: with_Timer_def)
qed

lemma enter_demo: "Timer_enter env0 (demo_timer lg) = (Inr PNone, demo_running lg)"
proof -
  have "start_time (self (demo_timer lg)) = None" by (simp add: demo_timer_fields)
  then show ?thesis by (simp add: Timer_enter_def demo_running_def start_stopped_quiet)
qed

lemma stop_running:
  assumes "start_time (self s) = Some t0"
  shows "self (snd (stop e p q s)) = (self s)\<lparr>start_time := None\<rparr>"
    and "heap (snd (stop e p q s)) =
           (heap s)(recorded_times (self s) :=
              heap s (recorded_times (self s)) @ [perf_counter e (perf_reads s) - t0])"
    and "perf_reads (snd (stop e p q s)) = Suc (perf_reads s)"
    and "fst (stop e p q s) = Inr (PFloat (perf_counter e (perf_reads s) - t0)) \<or>
         logging_raised (fst (stop e p q s))"
  using click_running [OF assms, of e True p q "''stop''"] by (simp_all add: stop_def)

subsection \<open>Growth of the samples\<close>

lemma grown_refl [simp]: "grown s s"
  by (simp add: grown_def)


lemma grown_same:
  "recorded_times (self s') = recorded_times (self s) \<Longrightarrow> heap s' = heap s \<Longrightarrow> grown s s'"
  by (simp add: grown_def samples_def)




lemma exit_snd:
  "snd (Timer_exit e s) = (if start_time (self s) \<noteq> None then snd (stop e MNone MNone s) else s)"
  by (cases "stop e MNone MNone s" rule: prod.exhaust; cases "fst (stop e MNone MNone s)")
     (auto simp: Timer_exit_def)

lemma restart_snd:
  "snd (restart e p q s) =
     (case fst (stop e p q s) of
        Inl x \<Rightarrow> snd (stop e p q s)
      | Inr v \<Rightarrow> snd (start e MNone (snd (stop e p q s))))"
  by (cases "stop e p q s" rule: prod.exhaust; cases "fst (stop e p q s)")
     (auto simp: restart_def)





lemma click_no_logger_eq:
  "logger (self s) = None \<Longrightarrow>
   click e b p q a s =
     (case start_time (self s) of
        None \<Rightarrow>
          (Inl (new_TimerNotRunningError (timer_name (self s)) (dt_now e (now_reads s)) a),
           s\<lparr>now_reads := Suc (now_reads s)\<rparr>)
      | Some t0 \<Rightarrow> (Inr (PFloat (perf_counter e (perf_reads s) - t0)), clicked e b t0 s))"
  by (cases "start_time (self s)") (simp_all add: click_stopped click_running_no_logger)



subsection \<open>The lines that reach the logger\<close>


lemma log_lines_calls: "calls (snd (log_lines lg ls s)) = calls s @ sent lg ls"
  by (induction ls arbitrary: s) (simp_all add: call_logger_def)

lemma log_lines_returns: "fst (log_lines lg ls s) = Inr () \<longleftrightarrow> (\<forall>l \<in> set ls. lg l)"
  by (induction ls arbitrary: s) (auto simp: call_logger_def)

lemma split_nl_lead:
  "split_nl (lead_text (name t) (resolved_text e p k) @ rest) =
     leading_lines e t p k @ split_nl rest"
proof (cases p)
  case MNone
  then show ?thesis
    using split_nl_append [of "the (name t) @ '':''" rest]
    by (auto simp: lead_text_def resolved_text_def leading_lines_def name_lines_def
        split: option.splits)
next
  case (MStr x)
  then show ?thesis
    using split_nl_append [of "the (name t) @ '':''" rest] split_nl_append [of x rest]
    by (auto simp: lead_text_def resolved_text_def leading_lines_def name_lines_def
        split: option.splits)
next
  case (MDefault d)
  have "newline \<notin> set (stamp d @ isoformat_seconds (dt_now e k))" by simp
  then have "split_nl (stamp d @ isoformat_seconds (dt_now e k)) =
             [stamp d @ isoformat_seconds (dt_now e k)]"
    by (rule split_nl_single)
  with MDefault split_nl_append [of "stamp d @ isoformat_seconds (dt_now e k)" rest]
  show ?thesis
    by (simp add: lead_text_def resolved_text_def leading_lines_def)
qed

lemma split_nl_tail:
  "split_nl (body @ tail_text (resolved_text e q k)) = split_nl body @ trailing_lines e q k"
proof (cases q)
  case MNone
  then show ?thesis by (simp add: tail_text_def resolved_text_def trailing_lines_def)
next
  case (MStr x)
  then show ?thesis
    using split_nl_append [of body x]
    by (simp add: tail_text_def resolved_text_def trailing_lines_def)
next
  case (MDefault d)
  have "newline \<notin> set (stamp d @ isoformat_seconds (dt_now e k))" by simp
  then have "split_nl (stamp d @ isoformat_seconds (dt_now e k)) =
             [stamp d @ isoformat_seconds (dt_now e k)]"
    by (rule split_nl_single)
  with MDefault split_nl_append [of body "stamp d @ isoformat_seconds (dt_now e k)"]
  show ?thesis
    by (simp add: tail_text_def resolved_text_def trailing_lines_def)
qed

lemma split_nl_logged_text:
  "split_nl (logged_text e t p q k body) =
     leading_lines e t p k @ split_nl body @ trailing_lines e q (k + stamp_reads p)"
  by (simp add: logged_text_def split_nl_lead split_nl_tail)

lemma click_calls:
  assumes "start_time (self s) = Some t0" and "logger (self s) = Some lg"
    and "str_format e (message (self s)) (perf_counter e (perf_reads s) - t0) = Some body"
  shows "calls (snd (click e b p q a s)) =
           calls s @ sent lg (leading_lines e (self s) p (now_reads s) @ split_nl body @
                              trailing_lines e q (now_reads s + stamp_reads p))"
    and "fst (click e b p q a s) = Inr (PFloat (perf_counter e (perf_reads s) - t0)) \<longleftrightarrow>
           (\<forall>l \<in> set (leading_lines e (self s) p (now_reads s) @ split_nl body @
                        trailing_lines e q (now_reads s + stamp_reads p)). lg l)"
proof -
  let ?c = "(clicked e b t0 s)\<lparr>now_reads := now_reads s + stamp_reads p + stamp_reads q\<rparr>"
  let ?ls = "split_nl (logged_text e (self s) p q (now_reads s) body)"
  obtain r s5 where l: "log_lines lg ?ls ?c = (r, s5)" by (cases "log_lines lg ?ls ?c")
  from log_lines_calls [of lg ?ls ?c] l have c: "calls s5 = calls s @ sent lg ?ls" by simp
  from log_lines_returns [of lg ?ls ?c] l have f: "r = Inr () \<longleftrightarrow> (\<forall>l \<in> set ?ls. lg l)" by simp
  have eq: "click e b p q a s =
      (case r of Inl y \<Rightarrow> (Inl y, s5)
       | Inr u \<Rightarrow> (Inr (PFloat (perf_counter e (perf_reads s) - t0)), s5))"
    by (simp add: click_running_logger_eq [OF assms(1,2)] assms(3) l split: sum.splits)
  from eq c show "calls (snd (click e b p q a s)) =
           calls s @ sent lg (leading_lines e (self s) p (now_reads s) @ split_nl body @
                              trailing_lines e q (now_reads s + stamp_reads p))"
    by (cases r) (simp_all add: split_nl_logged_text)
  from eq f show "fst (click e b p q a s) = Inr (PFloat (perf_counter e (perf_reads s) - t0)) \<longleftrightarrow>
           (\<forall>l \<in> set (leading_lines e (self s) p (now_reads s) @ split_nl body @
                        trailing_lines e q (now_reads s + stamp_reads p)). lg l)"
    by (cases r) (simp_all add: split_nl_logged_text)
qed


subsection \<open>Runs with and without a logger\<close>

lemma same_outcome_simps [simp]:
  "same_outcome (Inr v) (Inr w) = (v = w)"
  "same_outcome (Inl x) (Inl y) = same_exn x y"
  "same_outcome (Inl x) (Inr w) = False"
  "same_outcome (Inr v) (Inl y) = False"
  by (simp_all add: same_outcome_def)

lemma click_config [simp]:
  "name (self (snd (click e b p q a s))) = name (self s)"
  "message (self (snd (click e b p q a s))) = message (self s)"
  "logger (self (snd (click e b p q a s))) = logger (self s)"
proof -
  have "name (self (snd (click e b p q a s))) = name (self s) \<and>
        message (self (snd (click e b p q a s))) = message (self s) \<and>
        logger (self (snd (click e b p q a s))) = logger (self s)"
  proof (cases "start_time (self s)")
    case None
    then show ?thesis by (simp add: click_stopped)
  next
    case (Some t0)
    from click_running(1) [OF Some, of e b p q a] show ?thesis by simp
  qed
  then show "name (self (snd (click e b p q a s))) = name (self s)"
    "message (self (snd (click e b p q a s))) = message (self s)"
    "logger (self (snd (click e b p q a s))) = logger (self s)" by simp_all
qed

lemma start_config [simp]:
  "name (self (snd (start e m s))) = name (self s)"
  "message (self (snd (start e m s))) = message (self s)"
  "logger (self (snd (start e m s))) = logger (self s)"
proof -
  have "name (self (snd (start e m s))) = name (self s) \<and>
        message (self (snd (start e m s))) = message (self s) \<and>
        logger (self (snd (start e m s))) = logger (self s)"
  proof (cases "start_time (self s)")
    case None
    from start_stopped(1) [OF None, of e m] show ?thesis by simp
  next
    case (Some t0)
    then show ?thesis by (simp add: start_running)
  qed
  then show "name (self (snd (start e m s))) = name (self s)"
    "message (self (snd (start e m s))) = message (self s)"
    "logger (self (snd (start e m s))) = logger (self s)" by simp_all
qed

lemma Timer_log_accepted:
  assumes "logger (self s) = Some lg" and "\<forall>l. lg l"
  shows "fst (Timer_log e m s) = Inr PSelf"
proof (cases m)
  case MNone
  with assms show ?thesis by (simp add: Timer_log_def)
next
  case (MStr x)
  from assms(2) have "\<forall>l \<in> set (split_nl x). lg l" by simp
  from log_lines_accepting [OF this] MStr assms(1) show ?thesis by (simp add: Timer_log_def)
next
  case (MDefault d)
  with assms show ?thesis by (simp add: Timer_log_def timestamp_to_msg_eq call_logger_def)
qed

lemma click_twin:
  assumes tw: "twin s s'" and l: "logger (self s) = None" and l': "logger (self s') = Some lg"
    and g: "\<forall>l. lg l" and f: "\<forall>x. str_format e (message (self s)) x \<noteq> None"
  shows "same_outcome (fst (click e b p q a s)) (fst (click e b p q a s'))"
    and "twin (snd (click e b p q a s)) (snd (click e b p q a s'))"
    and "calls (snd (click e b p q a s)) = calls s"
proof -
  have "same_outcome (fst (click e b p q a s)) (fst (click e b p q a s')) \<and>
        twin (snd (click e b p q a s)) (snd (click e b p q a s')) \<and>
        calls (snd (click e b p q a s)) = calls s"
  proof (cases "start_time (self s)")
    case None
    with tw have n': "start_time (self s') = None" by (simp add: twin_def)
    from tw have "timer_name (self s') = timer_name (self s)" by (simp add: twin_def timer_name_def)
    with None n' tw show ?thesis
      by (simp add: click_stopped new_TimerNotRunningError_def twin_def)
  next
    case (Some t0)
    with tw have s': "start_time (self s') = Some t0" by (simp add: twin_def)
    let ?x = "perf_counter e (perf_reads s) - t0"
    from tw have x: "perf_counter e (perf_reads s') - t0 = ?x" by (simp add: twin_def)
    from f tw obtain body where body: "str_format e (message (self s')) (perf_counter e (perf_reads s') - t0) = Some body"
      by (auto simp: twin_def)
    from click_calls(2) [OF s' l' body, of b p q a] g x
    have r': "fst (click e b p q a s') = Inr (PFloat ?x)" by simp
    note c' = click_running(1,2,3) [OF s', of e b p q a]
    from Some l have c: "click e b p q a s = (Inr (PFloat ?x), clicked e b t0 s)"
      by (rule click_running_no_logger)
    from c r' c' tw show ?thesis by (simp add: twin_def)
  qed
  then show "same_outcome (fst (click e b p q a s)) (fst (click e b p q a s'))"
    and "twin (snd (click e b p q a s)) (snd (click e b p q a s'))"
    and "calls (snd (click e b p q a s)) = calls s" by simp_all
qed

lemma start_twin:
  assumes tw: "twin s s'" and l: "logger (self s) = None" and l': "logger (self s') = Some lg"
    and g: "\<forall>l. lg l"
  shows "same_outcome (fst (start e m s)) (fst (start e m s'))"
    and "twin (snd (start e m s)) (snd (start e m s'))"
    and "calls (snd (start e m s)) = calls s"
proof -
  have "same_outcome (fst (start e m s)) (fst (start e m s')) \<and>
        twin (snd (start e m s)) (snd (start e m s')) \<and>
        calls (snd (start e m s)) = calls s"
  proof (cases "start_time (self s)")
    case None
    with tw have n': "start_time (self s') = None" by (simp add: twin_def)
    from None l have c: "start e m s = (Inr PSelf, started e s)"
      by (simp add: start_stopped_quiet)
    note c' = start_stopped(1,2,3) [OF n', of e m]
    have r': "fst (start e m s') = Inr PSelf"
    proof (cases "truthy m")
      case True
      have lg: "logger (self (started e s')) = Some lg" using l' by simp
      from Timer_log_accepted [OF lg g, of e m] True n' l' show ?thesis
        by (cases "Timer_log e m (started e s')") (simp add: start_stopped_logging)
    next
      case False
      with n' show ?thesis by (simp add: start_stopped_quiet)
    qed
    from c c' r' tw show ?thesis by (simp add: twin_def)
  next
    case (Some t0)
    with tw have s': "start_time (self s') = Some t0" by (simp add: twin_def)
    from tw have "timer_name (self s') = timer_name (self s)" by (simp add: twin_def timer_name_def)
    with Some s' tw show ?thesis
      by (simp add: start_running new_TimerAlreadyRunningError_def twin_def)
  qed
  then show "same_outcome (fst (start e m s)) (fst (start e m s'))"
    and "twin (snd (start e m s)) (snd (start e m s'))"
    and "calls (snd (start e m s)) = calls s" by simp_all
qed

lemma same_outcome_Inl: "same_outcome r r' \<Longrightarrow> (\<exists>x. r = Inl x) \<longleftrightarrow> (\<exists>y. r' = Inl y)"
  by (cases r; cases r') simp_all

lemma restart_fst:
  "fst (restart e p q s) =
     (case fst (stop e p q s) of
        Inl x \<Rightarrow> Inl x
      | Inr v \<Rightarrow> fst (start e MNone (snd (stop e p q s))))"
  by (cases "stop e p q s" rule: prod.exhaust; cases "fst (stop e p q s)")
     (auto simp: restart_def)

lemma enter_fst:
  "fst (Timer_enter e s) = (case fst (start e MNone s) of Inl x \<Rightarrow> Inl x | Inr v \<Rightarrow> Inr PNone)"
  by (cases "start e MNone s" rule: prod.exhaust; cases "fst (start e MNone s)")
     (auto simp: Timer_enter_def)

lemma exit_fst:
  "fst (Timer_exit e s) =
     (if start_time (self s) \<noteq> None
      then (case fst (stop e MNone MNone s) of Inl x \<Rightarrow> Inl x | Inr v \<Rightarrow> Inr PNone)
      else Inr PNone)"
  by (cases "stop e MNone MNone s" rule: prod.exhaust; cases "fst (stop e MNone MNone s)")
     (auto simp: Timer_exit_def)

lemma run_call_config [simp]:
  "name (self (snd (run_call e c s))) = name (self s)"
  "message (self (snd (run_call e c s))) = message (self s)"
  "logger (self (snd (run_call e c s))) = logger (self s)"
  by (cases c; cases "fst (stop e (case c of Restart p q \<Rightarrow> p | _ \<Rightarrow> MNone)
                             (case c of Restart p q \<Rightarrow> q | _ \<Rightarrow> MNone) s)";
      simp add: Timer_measure_def stop_def times_def enter_snd exit_snd restart_snd)+

lemma run_call_twin:
  assumes tw: "twin s s'" and l: "logger (self s) = None" and l': "logger (self s') = Some lg"
    and g: "\<forall>l. lg l" and f: "\<forall>x. str_format e (message (self s)) x \<noteq> None"
  shows "same_outcome (fst (run_call e c s)) (fst (run_call e c s')) \<and>
         twin (snd (run_call e c s)) (snd (run_call e c s')) \<and>
         calls (snd (run_call e c s)) = calls s"
proof -
  note st = click_twin [OF tw l l' g f, of True _ _ "''stop''", folded stop_def]
  show ?thesis
  proof (cases c)
    case (Start m)
    with start_twin [OF tw l l' g, of e m] show ?thesis by simp
  next
    case (Measure p q)
    with click_twin [OF tw l l' g f, of False p q "''measure''"] show ?thesis
      by (simp add: Timer_measure_def)
  next
    case (Stop p q)
    with st [of p q] show ?thesis by simp
  next
    case (Restart p q)
    let ?s1 = "snd (stop e p q s)" and ?s1' = "snd (stop e p q s')"
    have l1: "logger (self ?s1) = None" "logger (self ?s1') = Some lg"
      using l l' by (simp_all add: stop_def)
    note sa = start_twin [OF st(2) [of p q] l1 g, of e MNone]
    show ?thesis
    proof (cases "fst (stop e p q s)")
      case (Inl x)
      with same_outcome_Inl [OF st(1) [of p q]] obtain y where "fst (stop e p q s') = Inl y"
        by auto
      with Inl Restart st [of p q] show ?thesis by (simp add: restart_fst restart_snd)
    next
      case (Inr v)
      with same_outcome_Inl [OF st(1) [of p q]] obtain w where "fst (stop e p q s') = Inr w"
        by (cases "fst (stop e p q s')") auto
      with Inr Restart st [of p q] sa show ?thesis by (simp add: restart_fst restart_snd)
    qed
  next
    case (Log m)
    from Timer_log_accepted [OF l' g, of e m] Timer_log_frame [of e m s'] tw l Log
    show ?thesis by (simp add: Timer_log_no_logger twin_def)
  next
    case Times
    with tw show ?thesis by (simp add: times_def twin_def)
  next
    case Enter
    note sa = start_twin [OF tw l l' g, of e MNone]
    from sa(1) have "same_outcome (fst (Timer_enter e s)) (fst (Timer_enter e s'))"
      by (cases "fst (start e MNone s)"; cases "fst (start e MNone s')") (simp_all add: enter_fst)
    with Enter sa show ?thesis by (simp add: enter_snd)
  next
    case Exit
    from tw have eq: "start_time (self s') = start_time (self s)" by (simp add: twin_def)
    from st(1) [of MNone MNone]
    have "same_outcome (fst (Timer_exit e s)) (fst (Timer_exit e s'))"
      by (cases "fst (stop e MNone MNone s)"; cases "fst (stop e MNone MNone s')")
         (simp_all add: exit_fst eq)
    with Exit st [of MNone MNone] tw eq show ?thesis by (simp add: exit_snd)
  qed
qed

lemma run_twin:
  assumes "twin s s'" and "logger (self s) = None" and "logger (self s') = Some lg"
    and "\<forall>l. lg l" and "\<forall>x. str_format e (message (self s)) x \<noteq> None"
  shows "list_all2 same_outcome (fst (run e cs s)) (fst (run e cs s')) \<and>
         twin (snd (run e cs s)) (snd (run e cs s')) \<and>
         calls (snd (run e cs s)) = calls s"
  using assms
proof (induction cs arbitrary: s s')
  case Nil
  then show ?case by simp
next
  case (Cons c cs)
  obtain r s1 where c: "run_call e c s = (r, s1)" by (cases "run_call e c s")
  obtain r' s1' where c': "run_call e c s' = (r', s1')" by (cases "run_call e c s'")
  obtain rs s2 where cs: "run e cs s1 = (rs, s2)" by (cases "run e cs s1")
  obtain rs' s2' where cs': "run e cs s1' = (rs', s2')" by (cases "run e cs s1'")
  from run_call_twin [OF Cons.prems, of c] c c'
  have step: "same_outcome r r'" "twin s1 s1'" "calls s1 = calls s" by simp_all
  from run_call_config [of e c s] c Cons.prems(2,5)
  have k: "logger (self s1) = None" "\<forall>x. str_format e (message (self s1)) x \<noteq> None" by simp_all
  from run_call_config [of e c s'] c' Cons.prems(3)
  have k': "logger (self s1') = Some lg" by simp
  from Cons.IH [OF step(2) k(1) k' Cons.prems(4) k(2)] cs cs'
  have "list_all2 same_outcome rs rs'" "twin s2 s2'" "calls s2 = calls s1" by simp_all
  with step c c' cs cs' show ?case by simp
qed

lemma click_silent: "logger (self s) = None \<Longrightarrow> calls (snd (click e b p q a s)) = calls s"
  by (cases "start_time (self s)") (simp_all add: click_no_logger_eq)

lemma start_silent: "logger (self s) = None \<Longrightarrow> calls (snd (start e m s)) = calls s"
  by (cases "start_time (self s)") (simp_all add: start_running start_stopped_quiet)

lemma run_call_silent:
  assumes "logger (self s) = None"
  shows "calls (snd (run_call e c s)) = calls s"
proof (cases c)
  case (Restart p q)
  have "logger (self (snd (stop e p q s))) = None" using assms by (simp add: stop_def)
  from start_silent [OF this, of e MNone] click_silent [OF assms, of e True p q "''stop''"]
    Restart show ?thesis
    by (cases "fst (stop e p q s)") (simp_all add: restart_snd stop_def)
qed (simp_all add: assms start_silent click_silent Timer_measure_def stop_def times_def
      Timer_log_no_logger enter_snd exit_snd)

lemma run_silent: "logger (self s) = None \<Longrightarrow> calls (snd (run e cs s)) = calls s"
proof (induction cs arbitrary: s)
  case Nil
  show ?case by simp
next
  case (Cons c cs)
  obtain r s1 where c: "run_call e c s = (r, s1)" by (cases "run_call e c s")
  obtain rs s2 where cs: "run e cs s1 = (rs, s2)" by (cases "run e cs s1")
  from run_call_config(3) [of e c s] c Cons.prems have l1: "logger (self s1) = None" by simp
  from run_call_silent [OF Cons.prems, of e c] c have "calls s1 = calls s" by simp
  moreover from Cons.IH [OF l1] cs have "calls s2 = calls s1" by simp
  ultimately show ?case using c cs by simp
qed

section \<open>C1: what times returns\<close>

text \<open>
  Claim C1, as amended. \<open>times\<close> returns the list object that \<open>recorded_times\<close> refers
  to, neither a copy nor a read-only view: the call changes nothing, and every in-place
  update \<open>f\<close> of the returned list is an update of the timer's own storage.
\<close>

theorem times_returns_the_list_itself:
  "fst (times s) = Inr (PList (recorded_times (self s))) \<and> snd (times s) = s \<and>
   (fst (times s) = Inr (PList a) \<longrightarrow>
      heap (list_mutate a f (snd (times s))) (recorded_times (self s)) =
        f (heap s (recorded_times (self s))))"
  by (simp add: times_def)

theorem times_returns_the_list_itself_witness:
  "fst (times (demo_timer None)) = Inr (PList 0) \<and>
   heap (list_mutate 0 (\<lambda>xs. xs @ [1]) (snd (times (demo_timer None))))
     (recorded_times (self (demo_timer None))) = [1]"
  using times_returns_the_list_itself [of "demo_timer None" 0 "\<lambda>xs. xs @ [1]"]
  by (simp add: demo_timer_fields)

text \<open>
  The claim as it was stated: appending to the value that \<open>times\<close> returned leaves the
  timer's storage as it was. On a fresh timer it does not.
\<close>

theorem times_copy_counterexample:
  "fst (times (demo_timer None)) = Inr (PList 0) \<and>
   heap (list_append 0 1 (snd (times (demo_timer None)))) (recorded_times (self (demo_timer None)))
     \<noteq> heap (demo_timer None) (recorded_times (self (demo_timer None)))"
  by (simp add: times_def demo_timer_fields)

section \<open>C2: when the operations raise, and what a raise leaves behind\<close>

text \<open>
  Claim C2, as amended. \<open>start\<close> raises \<open>TimerAlreadyRunningError\<close> exactly when the
  timer is running; \<open>measure\<close> and \<open>stop\<close> raise \<open>TimerNotRunningError\<close>, with the
  action \<open>measure\<close> and \<open>stop\<close>, exactly when it is stopped. When one of them raises
  one of these two exceptions, every field of the timer, the list of samples and the
  logger's calls are as before the call. An exception of the logger or of formatting
  the template is another matter: it leaves \<open>measure\<close> and \<open>stop\<close> after the sample
  was appended (and, for \<open>stop\<close>, after \<open>start_time\<close> was cleared), and \<open>start\<close>
  after \<open>start_time\<close> was set.
\<close>

theorem timer_errors_keep_the_timer:
  "(raised is_already_running (fst (start e m s)) \<longleftrightarrow> start_time (self s) \<noteq> None) \<and>
   (raised (is_not_running ''measure'') (fst (Timer_measure e p q s)) \<longleftrightarrow>
      start_time (self s) = None) \<and>
   (raised (is_not_running ''stop'') (fst (stop e p q s)) \<longleftrightarrow> start_time (self s) = None) \<and>
   (raised is_timer_exn (fst (start e m s)) \<longrightarrow>
      raised is_already_running (fst (start e m s)) \<and>
      self (snd (start e m s)) = self s \<and> heap (snd (start e m s)) = heap s \<and>
      calls (snd (start e m s)) = calls s) \<and>
   (raised is_timer_exn (fst (Timer_measure e p q s)) \<longrightarrow>
      raised (is_not_running ''measure'') (fst (Timer_measure e p q s)) \<and>
      self (snd (Timer_measure e p q s)) = self s \<and> heap (snd (Timer_measure e p q s)) = heap s \<and>
      calls (snd (Timer_measure e p q s)) = calls s) \<and>
   (raised is_timer_exn (fst (stop e p q s)) \<longrightarrow>
      raised (is_not_running ''stop'') (fst (stop e p q s)) \<and>
      self (snd (stop e p q s)) = self s \<and> heap (snd (stop e p q s)) = heap s \<and>
      calls (snd (stop e p q s)) = calls s) \<and>
   (logging_raised (fst (start e m s)) \<longrightarrow>
      start_time (self s) = None \<and>
      start_time (self (snd (start e m s))) = Some (perf_counter e (perf_reads s))) \<and>
   (\<forall>t0. logging_raised (fst (Timer_measure e p q s)) \<and> start_time (self s) = Some t0 \<longrightarrow>
      heap (snd (Timer_measure e p q s)) (recorded_times (self s)) =
        heap s (recorded_times (self s)) @ [perf_counter e (perf_reads s) - t0]) \<and>
   (\<forall>t0. logging_raised (fst (stop e p q s)) \<and> start_time (self s) = Some t0 \<longrightarrow>
      start_time (self (snd (stop e p q s))) = None \<and>
      heap (snd (stop e p q s)) (recorded_times (self s)) =
        heap s (recorded_times (self s)) @ [perf_counter e (perf_reads s) - t0])"
proof (cases "start_time (self s)")
  case None
  have st: "fst (start e m s) = Inr PSelf \<or> logging_raised (fst (start e m s))"
    using None by (rule start_stopped(4))
  have a: "\<not> raised is_already_running (fst (start e m s))"
    "\<not> raised is_timer_exn (fst (start e m s))"
    using st by (auto dest: logging_raised_not_timer)
  have b: "start_time (self (snd (start e m s))) = Some (perf_counter e (perf_reads s))"
    using None by (simp add: start_after)
  from None a b show ?thesis
    by (simp add: Timer_measure_def stop_def click_stopped new_TimerNotRunningError_def)
next
  case (Some t0)
  have ms: "fst (Timer_measure e p q s) = Inr (PFloat (perf_counter e (perf_reads s) - t0)) \<or>
            logging_raised (fst (Timer_measure e p q s))"
    unfolding Timer_measure_def using Some by (rule click_running(4))
  have ss: "fst (stop e p q s) = Inr (PFloat (perf_counter e (perf_reads s) - t0)) \<or>
            logging_raised (fst (stop e p q s))"
    unfolding stop_def using Some by (rule click_running(4))
  have a: "\<not> raised is_timer_exn (fst (Timer_measure e p q s))"
    "\<not> raised (is_not_running ''measure'') (fst (Timer_measure e p q s))"
    using ms by (auto dest: logging_raised_not_timer)
  have b: "\<not> raised is_timer_exn (fst (stop e p q s))"
    "\<not> raised (is_not_running ''stop'') (fst (stop e p q s))"
    using ss by (auto dest: logging_raised_not_timer)
  have c: "heap (snd (Timer_measure e p q s)) = heap (clicked e False t0 s)"
    unfolding Timer_measure_def using Some by (rule click_running(2))
  have d: "heap (snd (stop e p q s)) = heap (clicked e True t0 s)"
    unfolding stop_def using Some by (rule click_running(2))
  from Some a b c d show ?thesis
    by (simp add: start_running new_TimerAlreadyRunningError_def)
qed

theorem timer_errors_keep_the_timer_witness:
  "raised is_timer_exn (fst (start env0 MNone (demo_running None))) \<and>
   self (snd (start env0 MNone (demo_running None))) = self (demo_running None) \<and>
   raised is_timer_exn (fst (Timer_measure env0 MNone MNone (demo_timer None))) \<and>
   self (snd (Timer_measure env0 MNone MNone (demo_timer None))) = self (demo_timer None) \<and>
   raised is_timer_exn (fst (stop env0 MNone MNone (demo_timer None))) \<and>
   self (snd (stop env0 MNone MNone (demo_timer None))) = self (demo_timer None) \<and>
   logging_raised (fst (start env0 (MStr ''hi'') (demo_timer (Some refusing)))) \<and>
   start_time (self (snd (start env0 (MStr ''hi'') (demo_timer (Some refusing))))) = Some 0 \<and>
   logging_raised (fst (Timer_measure env0 MNone MNone (demo_running (Some refusing)))) \<and>
   heap (snd (Timer_measure env0 MNone MNone (demo_running (Some refusing)))) 0 = [1] \<and>
   logging_raised (fst (stop env0 MNone MNone (demo_running (Some refusing)))) \<and>
   start_time (self (snd (stop env0 MNone MNone (demo_running (Some refusing))))) = None \<and>
   heap (snd (stop env0 MNone MNone (demo_running (Some refusing)))) 0 = [1]"
proof -
  have a: "raised is_timer_exn (fst (start env0 MNone (demo_running None)))"
    by (simp add: start_running [where ?t0.0 = 0] demo_running_fields
        new_TimerAlreadyRunningError_def)
  have b: "raised is_timer_exn (fst (Timer_measure env0 MNone MNone (demo_timer None)))"
    "raised is_timer_exn (fst (stop env0 MNone MNone (demo_timer None)))"
    by (simp_all add: Timer_measure_def stop_def click_stopped demo_timer_fields
        new_TimerNotRunningError_def)
  have c: "logging_raised (fst (start env0 (MStr ''hi'') (demo_timer (Some refusing))))"
    by (simp add: start_demo_refusing)
  have d: "logging_raised (fst (Timer_measure env0 MNone MNone (demo_running (Some refusing))))"
    "logging_raised (fst (stop env0 MNone MNone (demo_running (Some refusing))))"
    by (simp_all add: Timer_measure_def stop_def click_demo_refusing)
  from a b c d
    timer_errors_keep_the_timer
      [where s = "demo_running None" and e = env0 and m = MNone and p = MNone and q = MNone]
    timer_errors_keep_the_timer
      [where s = "demo_timer None" and e = env0 and m = MNone and p = MNone and q = MNone]
    timer_errors_keep_the_timer
      [where s = "demo_timer (Some refusing)" and e = env0 and m = "MStr ''hi''" and p = MNone
         and q = MNone]
    timer_errors_keep_the_timer
      [where s = "demo_running (Some refusing)" and e = env0 and m = MNone and p = MNone
         and q = MNone]
  show ?thesis by (simp add: demo_running_fields demo_timer_fields env0_fields)
qed

text \<open>
  The claim as it was stated covers every raise. With a logger that raises, \<open>stop\<close> on
  a running timer raises and leaves the timer stopped, with one more sample.
\<close>

theorem raising_stop_changes_the_timer_counterexample:
  "fst (stop env0 MNone MNone (demo_running (Some refusing))) = Inl (LoggerError ''t:'') \<and>
   start_time (self (snd (stop env0 MNone MNone (demo_running (Some refusing))))) \<noteq>
     start_time (self (demo_running (Some refusing))) \<and>
   heap (snd (stop env0 MNone MNone (demo_running (Some refusing))))
       (recorded_times (self (demo_running (Some refusing)))) \<noteq>
     heap (demo_running (Some refusing)) (recorded_times (self (demo_running (Some refusing))))"
  by (simp add: stop_def click_demo_refusing demo_running_fields)

section \<open>C3: the timer as a context manager\<close>

text \<open>
  Claim C3, as amended. A block is entered by \<open>start()\<close> without a message: the timer
  was stopped, and the state at the start of the block is the one \<open>start\<close> leaves.
  However the block ends (by running off its end, by leaving early or by raising) and
  whatever it did to the state:
  \<^item> if the timer is stopped at the end of the block, \<open>__exit__\<close> changes nothing and
    the block's outcome, its exception included, is the outcome of the statement;
  \<^item> if the timer is still running, it is stopped once: afterwards \<open>start_time\<close> is
    \<open>None\<close>, exactly one sample is appended and one reading of the performance counter
    was taken. This also holds when the logger or the formatting of the template raises
    in that \<open>stop\<close>; then that exception is the outcome of the statement and replaces
    the block's. Otherwise, and always when there is no logger, the block's outcome is
    the outcome of the statement.
\<close>

theorem with_Timer_stops_on_exit:
  assumes "Timer_enter e s = (Inr v, s1)" and "body v s1 = (r, s2)"
  shows "start_time (self s) = None \<and> s1 = started e s \<and> calls s1 = calls s \<and>
    (start_time (self s2) = None \<longrightarrow> with_Timer e body s = (r, s2)) \<and>
    (\<forall>t0. start_time (self s2) = Some t0 \<longrightarrow>
       self (snd (with_Timer e body s)) = (self s2)\<lparr>start_time := None\<rparr> \<and>
       heap (snd (with_Timer e body s)) =
         (heap s2)(recorded_times (self s2) :=
            heap s2 (recorded_times (self s2)) @ [perf_counter e (perf_reads s2) - t0]) \<and>
       perf_reads (snd (with_Timer e body s)) = Suc (perf_reads s2) \<and>
       (fst (Timer_exit e s2) = Inr PNone \<or> logging_raised (fst (Timer_exit e s2))) \<and>
       (fst (Timer_exit e s2) = Inr PNone \<longrightarrow> fst (with_Timer e body s) = r) \<and>
       (\<forall>x. fst (Timer_exit e s2) = Inl x \<longrightarrow> fst (with_Timer e body s) = Inl x) \<and>
       (logger (self s2) = None \<longrightarrow> fst (with_Timer e body s) = r))"
proof -
  note en = enter_returned [OF assms(1)]
  note w = with_Timer_entered [where body = body, OF assms]
  have a: "start_time (self s2) = None \<longrightarrow> with_Timer e body s = (r, s2)"
  proof
    assume n: "start_time (self s2) = None"
    then have ex: "Timer_exit e s2 = (Inr PNone, s2)" by (rule exit_stopped)
    with w(1) w(2) show "with_Timer e body s = (r, s2)"
      by (cases "with_Timer e body s") simp
  qed
  have b: "self (snd (with_Timer e body s)) = (self s2)\<lparr>start_time := None\<rparr> \<and>
       heap (snd (with_Timer e body s)) =
         (heap s2)(recorded_times (self s2) :=
            heap s2 (recorded_times (self s2)) @ [perf_counter e (perf_reads s2) - t0]) \<and>
       perf_reads (snd (with_Timer e body s)) = Suc (perf_reads s2) \<and>
       (fst (Timer_exit e s2) = Inr PNone \<or> logging_raised (fst (Timer_exit e s2))) \<and>
       (fst (Timer_exit e s2) = Inr PNone \<longrightarrow> fst (with_Timer e body s) = r) \<and>
       (\<forall>x. fst (Timer_exit e s2) = Inl x \<longrightarrow> fst (with_Timer e body s) = Inl x) \<and>
       (logger (self s2) = None \<longrightarrow> fst (with_Timer e body s) = r)"
    if t: "start_time (self s2) = Some t0" for t0
  proof -
    note ex = exit_running [OF t, of e]
    note cl = click_running [OF t, of e True MNone MNone "''stop''", folded stop_def]
    from w(1) ex(1) cl(1,2,3) w(2) w(3) ex(2) ex(3) show ?thesis by simp
  qed
  from en a b show ?thesis by simp
qed

theorem with_Timer_stops_on_exit_witness:
  "Timer_enter env0 (demo_timer None) = (Inr PNone, demo_running None) \<and>
   start_time (self (demo_running None)) = Some 0 \<and> logger (self (demo_running None)) = None \<and>
   fst (with_Timer env0 (\<lambda>v s. (Inl (UserError ''boom''), s)) (demo_timer None)) =
     Inl (UserError ''boom'') \<and>
   start_time (self (snd (with_Timer env0 (\<lambda>v s. (Inl (UserError ''boom''), s))
     (demo_timer None)))) = None \<and>
   heap (snd (with_Timer env0 (\<lambda>v s. (Inl (UserError ''boom''), s)) (demo_timer None))) 0 = [1] \<and>
   start_time (self (snd (stop env0 MNone MNone (demo_running None)))) = None \<and>
   with_Timer env0 (\<lambda>v s. (Inr Leaves_early, snd (stop env0 MNone MNone s))) (demo_timer None) =
     (Inr Leaves_early, snd (stop env0 MNone MNone (demo_running None)))"
proof -
  have en: "Timer_enter env0 (demo_timer None) = (Inr PNone, demo_running None)"
    by (rule enter_demo)
  have b1: "(\<lambda>v s. (Inl (UserError ''boom''), s)) PNone (demo_running None) =
              (Inl (UserError ''boom'') :: pyexn + block_exit, demo_running None)"
    by simp
  have b2: "(\<lambda>v s. (Inr Leaves_early, snd (stop env0 MNone MNone s))) PNone (demo_running None) =
              (Inr Leaves_early :: pyexn + block_exit, snd (stop env0 MNone MNone (demo_running None)))"
    by simp
  have h: "start_time (self (demo_running None)) = Some 0" "logger (self (demo_running None)) = None"
    by (simp_all add: demo_running_fields)
  have n: "start_time (self (snd (stop env0 MNone MNone (demo_running None)))) = None" by simp
  from with_Timer_stops_on_exit [where body = "\<lambda>v s. (Inl (UserError ''boom''), s)", OF en b1]
    with_Timer_stops_on_exit
      [where body = "\<lambda>v s. (Inr Leaves_early, snd (stop env0 MNone MNone s))", OF en b2]
    en h n
  show ?thesis by (simp add: demo_running_fields demo_timer_fields env0_fields)
qed

text \<open>
  The claim as it was stated lets every exception of the block reach the caller. With
  a logger that raises, the \<open>stop\<close> of \<open>__exit__\<close> raises and its exception replaces
  the one of the block.
\<close>

theorem block_exception_replaced_counterexample:
  "fst (with_Timer env0 (\<lambda>v s. (Inl (UserError ''boom''), s)) (demo_timer (Some refusing))) =
     Inl (LoggerError ''t:'') \<and>
   fst (with_Timer env0 (\<lambda>v s. (Inl (UserError ''boom''), s)) (demo_timer (Some refusing))) \<noteq>
     Inl (UserError ''boom'')"
proof -
  have h: "start_time (self (demo_running (Some refusing))) \<noteq> None"
    by (simp add: demo_running_fields)
  show ?thesis
    by (simp add: with_Timer_def enter_demo Timer_exit_def h stop_def click_demo_refusing)
qed

section \<open>C4: start_time and the two states\<close>

text \<open>
  Claim C4. The timer is stopped exactly when \<open>start_time\<close> is \<open>None\<close>: that is the
  state in which \<open>stop\<close> and \<open>measure\<close> raise \<open>TimerNotRunningError\<close> and the only one
  in which \<open>start\<close> does not raise \<open>TimerAlreadyRunningError\<close>. Every operation keeps
  the field in step with the state: \<open>start\<close> on a stopped timer sets it to the reading
  of the performance counter and leaves it alone on a running one, \<open>stop\<close> and
  \<open>__exit__\<close> leave it \<open>None\<close>, \<open>measure\<close> and \<open>log\<close> leave it as it was,
  \<open>__enter__\<close> does what \<open>start\<close> does, and \<open>restart\<close> leaves it set when it returns
  and \<open>None\<close> when it raises.
\<close>

theorem start_time_follows_state:
  "(start_time (self s) = None \<longleftrightarrow> raised (is_not_running ''stop'') (fst (stop e p q s))) \<and>
   (start_time (self s) = None \<longleftrightarrow>
      raised (is_not_running ''measure'') (fst (Timer_measure e p q s))) \<and>
   (start_time (self s) = None \<longleftrightarrow> \<not> raised is_already_running (fst (start e m s))) \<and>
   (start_time (self s) = None \<longrightarrow>
      start_time (self (snd (start e m s))) = Some (perf_counter e (perf_reads s))) \<and>
   (start_time (self s) \<noteq> None \<longrightarrow>
      start_time (self (snd (start e m s))) = start_time (self s)) \<and>
   start_time (self (snd (stop e p q s))) = None \<and>
   start_time (self (snd (Timer_measure e p q s))) = start_time (self s) \<and>
   start_time (self (snd (Timer_log e m s))) = start_time (self s) \<and>
   start_time (self (snd (Timer_enter e s))) = start_time (self (snd (start e MNone s))) \<and>
   start_time (self (snd (Timer_exit e s))) = None \<and>
   (\<forall>v. fst (restart e p q s) = Inr v \<longrightarrow> start_time (self (snd (restart e p q s))) \<noteq> None) \<and>
   (\<forall>x. fst (restart e p q s) = Inl x \<longrightarrow> start_time (self (snd (restart e p q s))) = None)"
proof -
  have a: "start_time (self s) = None \<longleftrightarrow> raised (is_not_running ''stop'') (fst (stop e p q s))"
  proof (cases "start_time (self s)")
    case None
    then show ?thesis by (simp add: stop_def click_stopped new_TimerNotRunningError_def)
  next
    case (Some t0)
    from click_running(4) [OF this, of e True p q "''stop''"] Some show ?thesis
      by (auto simp: stop_def dest: logging_raised_not_timer)
  qed
  have b: "start_time (self s) = None \<longleftrightarrow>
      raised (is_not_running ''measure'') (fst (Timer_measure e p q s))"
  proof (cases "start_time (self s)")
    case None
    then show ?thesis by (simp add: Timer_measure_def click_stopped new_TimerNotRunningError_def)
  next
    case (Some t0)
    from click_running(4) [OF this, of e False p q "''measure''"] Some show ?thesis
      by (auto simp: Timer_measure_def dest: logging_raised_not_timer)
  qed
  have c: "start_time (self s) = None \<longleftrightarrow> \<not> raised is_already_running (fst (start e m s))"
  proof (cases "start_time (self s)")
    case None
    from start_stopped(4) [OF this, of e m] None show ?thesis
      by (auto dest: logging_raised_not_timer)
  next
    case (Some t0)
    then show ?thesis by (simp add: start_running new_TimerAlreadyRunningError_def)
  qed
  have d: "start_time (self s) = None \<longrightarrow>
      start_time (self (snd (start e m s))) = Some (perf_counter e (perf_reads s))"
    by (simp add: start_after)
  have d': "start_time (self s) \<noteq> None \<longrightarrow>
      start_time (self (snd (start e m s))) = start_time (self s)"
    by (auto simp: start_after)
  have f: "start_time (self (snd (Timer_enter e s))) = start_time (self (snd (start e MNone s)))"
    by (simp add: enter_snd)
  from a b c d d' f restart_after [of e p q s] show ?thesis by simp
qed

theorem start_time_follows_state_witness:
  "start_time (self (demo_timer None)) = None \<and>
   start_time (self (snd (start env0 MNone (demo_timer None)))) = Some 0 \<and>
   start_time (self (demo_running None)) \<noteq> None \<and>
   start_time (self (snd (start env0 MNone (demo_running None)))) = Some 0 \<and>
   fst (restart env0 MNone MNone (demo_running None)) = Inr PSelf \<and>
   start_time (self (snd (restart env0 MNone MNone (demo_running None)))) \<noteq> None \<and>
   raised (is_not_running ''stop'') (fst (restart env0 MNone MNone (demo_timer None))) \<and>
   start_time (self (snd (restart env0 MNone MNone (demo_timer None)))) = None"
proof -
  have h1: "start_time (self (demo_timer None)) = None" by (simp add: demo_timer_fields)
  have h2: "start_time (self (demo_running None)) = Some 0" by (simp add: demo_running_fields)
  have l: "logger (self (demo_running None)) = None" by (simp add: demo_running_fields)
  have r1: "fst (restart env0 MNone MNone (demo_running None)) = Inr PSelf"
    using restart_returned [OF stop_running_no_logger [OF h2 l]] by simp
  have r2: "restart env0 MNone MNone (demo_timer None) = stop env0 MNone MNone (demo_timer None)"
    using h1 by (rule restart_stopped)
  have r3: "raised (is_not_running ''stop'') (fst (stop env0 MNone MNone (demo_timer None)))"
    using h1 by (simp add: stop_def click_stopped new_TimerNotRunningError_def)
  from r3 obtain x where r4: "fst (restart env0 MNone MNone (demo_timer None)) = Inl x"
    unfolding r2 by (cases "fst (stop env0 MNone MNone (demo_timer None))") simp_all
  from start_time_follows_state
      [where s = "demo_timer None" and e = env0 and p = MNone and q = MNone and m = MNone]
    start_time_follows_state
      [where s = "demo_running None" and e = env0 and p = MNone and q = MNone and m = MNone]
    h1 h2 r1 r2 r3 r4
  show ?thesis by (simp add: demo_timer_fields demo_running_fields env0_fields)
qed

section \<open>C5: the samples only grow\<close>



section \<open>C6: restart\<close>

text \<open>
  Claim C6, as amended. \<open>restart(pre, post)\<close> is \<open>stop(pre, post)\<close> followed, when that
  returned, by \<open>start()\<close>; both messages go to the stop, the start logs nothing and,
  coming after a \<open>stop\<close> that returned, never raises. On a stopped timer \<open>restart\<close>
  raises exactly what \<open>stop\<close> raises, \<open>TimerNotRunningError\<close> with the action
  \<open>stop\<close>, and leaves the state \<open>stop\<close> leaves. On a running timer whose \<open>stop\<close>
  returns, \<open>restart\<close> returns the timer itself, the timer is running again from the
  next reading of the performance counter and exactly one sample was appended. On a
  running timer whose logger or template raises during the stop, \<open>restart\<close> raises that
  exception and leaves the timer stopped, with the sample appended.
\<close>

theorem restart_is_stop_then_start:
  "restart e p q s = stop_then_start e p q s \<and>
   (start_time (self s) = None \<longrightarrow>
      restart e p q s = stop e p q s \<and>
      raised (is_not_running ''stop'') (fst (restart e p q s))) \<and>
   (\<forall>v. fst (stop e p q s) = Inr v \<longrightarrow>
      start e MNone (snd (stop e p q s)) = (Inr PSelf, started e (snd (stop e p q s))) \<and>
      restart e p q s = (Inr PSelf, started e (snd (stop e p q s))) \<and>
      calls (snd (restart e p q s)) = calls (snd (stop e p q s))) \<and>
   (\<forall>t0. start_time (self s) = Some t0 \<and> \<not> logging_raised (fst (stop e p q s)) \<longrightarrow>
      fst (restart e p q s) = Inr PSelf \<and>
      start_time (self (snd (restart e p q s))) = Some (perf_counter e (Suc (perf_reads s))) \<and>
      heap (snd (restart e p q s)) =
        (heap s)(recorded_times (self s) :=
           heap s (recorded_times (self s)) @ [perf_counter e (perf_reads s) - t0])) \<and>
   (\<forall>t0. start_time (self s) = Some t0 \<and> logging_raised (fst (stop e p q s)) \<longrightarrow>
      restart e p q s = stop e p q s \<and>
      start_time (self (snd (restart e p q s))) = None \<and>
      heap (snd (restart e p q s)) =
        (heap s)(recorded_times (self s) :=
           heap s (recorded_times (self s)) @ [perf_counter e (perf_reads s) - t0]))"
proof -
  obtain r s1 where st: "stop e p q s = (r, s1)" by (cases "stop e p q s")
  have a: "restart e p q s = stop_then_start e p q s"
    using st by (cases r) (simp_all add: restart_def stop_then_start_def)
  have b: "start_time (self s) = None \<longrightarrow>
      restart e p q s = stop e p q s \<and> raised (is_not_running ''stop'') (fst (restart e p q s))"
    by (simp add: restart_stopped) (simp add: stop_def click_stopped new_TimerNotRunningError_def)
  have c: "start e MNone (snd (stop e p q s)) = (Inr PSelf, started e (snd (stop e p q s))) \<and>
      restart e p q s = (Inr PSelf, started e (snd (stop e p q s))) \<and>
      calls (snd (restart e p q s)) = calls (snd (stop e p q s))"
    if "fst (stop e p q s) = Inr v" for v
  proof -
    from that st have r: "stop e p q s = (Inr v, s1)" by simp
    from stop_after [of e p q s] r have n: "start_time (self s1) = None" by simp
    from restart_returned [OF r] r n show ?thesis by (simp add: start_stopped_quiet)
  qed
  have d: "fst (restart e p q s) = Inr PSelf \<and>
      start_time (self (snd (restart e p q s))) = Some (perf_counter e (Suc (perf_reads s))) \<and>
      heap (snd (restart e p q s)) =
        (heap s)(recorded_times (self s) :=
           heap s (recorded_times (self s)) @ [perf_counter e (perf_reads s) - t0])"
    if "start_time (self s) = Some t0" and "\<not> logging_raised (fst (stop e p q s))" for t0
  proof -
    note sr = stop_running [OF that(1), of e p q]
    from sr(4) that(2) st have r: "stop e p q s = (Inr (PFloat (perf_counter e (perf_reads s) - t0)), s1)"
      by simp
    from restart_returned [OF r] sr(1,2,3) st show ?thesis by simp
  qed
  have f: "restart e p q s = stop e p q s \<and>
      start_time (self (snd (restart e p q s))) = None \<and>
      heap (snd (restart e p q s)) =
        (heap s)(recorded_times (self s) :=
           heap s (recorded_times (self s)) @ [perf_counter e (perf_reads s) - t0])"
    if "start_time (self s) = Some t0" and "logging_raised (fst (stop e p q s))" for t0
  proof -
    note sr = stop_running [OF that(1), of e p q]
    from that(2) st obtain x where "r = Inl x" by (cases r) simp_all
    with st have "restart e p q s = stop e p q s" by (simp add: restart_def)
    with sr(2) show ?thesis by simp
  qed
  from a b c d f show ?thesis by blast
qed

theorem restart_is_stop_then_start_witness:
  "start_time (self (demo_timer None)) = None \<and>
   raised (is_not_running ''stop'') (fst (restart env0 MNone MNone (demo_timer None))) \<and>
   start_time (self (demo_running None)) = Some 0 \<and>
   fst (stop env0 MNone MNone (demo_running None)) = Inr (PFloat 1) \<and>
   fst (restart env0 MNone MNone (demo_running None)) = Inr PSelf \<and>
   start_time (self (snd (restart env0 MNone MNone (demo_running None)))) = Some 2 \<and>
   heap (snd (restart env0 MNone MNone (demo_running None))) 0 = [1] \<and>
   logging_raised (fst (stop env0 MNone MNone (demo_running (Some refusing)))) \<and>
   restart env0 MNone MNone (demo_running (Some refusing)) =
     stop env0 MNone MNone (demo_running (Some refusing))"
proof -
  have h1: "start_time (self (demo_timer None)) = None" by (simp add: demo_timer_fields)
  have h2: "start_time (self (demo_running None)) = Some 0" "logger (self (demo_running None)) = None"
    by (simp_all add: demo_running_fields)
  have h3: "start_time (self (demo_running (Some refusing))) = Some 0"
    by (simp add: demo_running_fields)
  have s2: "fst (stop env0 MNone MNone (demo_running None)) = Inr (PFloat 1)"
    by (simp add: stop_running_no_logger [OF h2] demo_running_fields env0_fields)
  have s3: "logging_raised (fst (stop env0 MNone MNone (demo_running (Some refusing))))"
    by (simp add: stop_def click_demo_refusing)
  note t1 = restart_is_stop_then_start
      [where s = "demo_timer None" and e = env0 and p = MNone and q = MNone]
  note t2 = restart_is_stop_then_start
      [where s = "demo_running None" and e = env0 and p = MNone and q = MNone]
  note t3 = restart_is_stop_then_start
      [where s = "demo_running (Some refusing)" and e = env0 and p = MNone and q = MNone]
  from t1 [THEN conjunct2, THEN conjunct1] h1
  have c1: "raised (is_not_running ''stop'') (fst (restart env0 MNone MNone (demo_timer None)))"
    by blast
  have n2: "\<not> logging_raised (fst (stop env0 MNone MNone (demo_running None)))"
    by (simp add: s2)
  from t2 [THEN conjunct2, THEN conjunct2, THEN conjunct2, THEN conjunct1, rule_format, of 0]
    h2(1) n2
  have c2: "fst (restart env0 MNone MNone (demo_running None)) = Inr PSelf \<and>
    start_time (self (snd (restart env0 MNone MNone (demo_running None)))) = Some 2 \<and>
    heap (snd (restart env0 MNone MNone (demo_running None))) 0 = [1]"
    by (simp add: demo_running_fields env0_fields)
  from t3 [THEN conjunct2, THEN conjunct2, THEN conjunct2, THEN conjunct2, rule_format, of 0]
    h3 s3
  have c3: "restart env0 MNone MNone (demo_running (Some refusing)) =
     stop env0 MNone MNone (demo_running (Some refusing))"
    by blast
  from h1 c1 h2(1) s2 c2 s3 c3 show ?thesis by simp
qed

text \<open>
  The claim as it was stated has every running timer running again after \<open>restart\<close>,
  which returns the timer. With a logger that raises, \<open>restart\<close> on a running timer
  raises and leaves the timer stopped.
\<close>

theorem restart_leaves_stopped_counterexample:
  "start_time (self (demo_running (Some refusing))) \<noteq> None \<and>
   fst (restart env0 MNone MNone (demo_running (Some refusing))) = Inl (LoggerError ''t:'') \<and>
   fst (restart env0 MNone MNone (demo_running (Some refusing))) \<noteq> Inr PSelf \<and>
   start_time (self (snd (restart env0 MNone MNone (demo_running (Some refusing))))) = None"
  by (simp add: restart_def stop_def click_demo_refusing demo_running_fields)

section \<open>C7: a run with a logger and a run without\<close>

text \<open>
  Claim C7, as amended. With \<open>logger = None\<close> no call ever reaches a logger. Take
  two timers that differ in nothing but the logger, absent in one and present in the
  other, the logger returning on every line and the message template formatting every
  value. After any sequence of calls, with the same readings of the performance
  counter, both have the same \<open>start_time\<close> and the same samples, and the calls
  returned the same values and raised the same exceptions, up to the timestamps these
  carry.
\<close>

theorem logger_does_not_change_the_run:
  "(logger (self s) = None \<longrightarrow> calls (snd (run e cs s)) = calls s) \<and>
   (twin s s' \<and> logger (self s) = None \<and> logger (self s') = Some lg \<and> (\<forall>l. lg l) \<and>
    (\<forall>x. str_format e (message (self s)) x \<noteq> None) \<longrightarrow>
      list_all2 same_outcome (fst (run e cs s)) (fst (run e cs s')) \<and>
      start_time (self (snd (run e cs s'))) = start_time (self (snd (run e cs s))) \<and>
      recorded_times (self (snd (run e cs s'))) = recorded_times (self (snd (run e cs s))) \<and>
      heap (snd (run e cs s')) = heap (snd (run e cs s)))"
proof -
  have a: "logger (self s) = None \<longrightarrow> calls (snd (run e cs s)) = calls s"
    by (simp add: run_silent)
  have b: "list_all2 same_outcome (fst (run e cs s)) (fst (run e cs s')) \<and>
      start_time (self (snd (run e cs s'))) = start_time (self (snd (run e cs s))) \<and>
      recorded_times (self (snd (run e cs s'))) = recorded_times (self (snd (run e cs s))) \<and>
      heap (snd (run e cs s')) = heap (snd (run e cs s))"
    if "twin s s'" "logger (self s) = None" "logger (self s') = Some lg" "\<forall>l. lg l"
      "\<forall>x. str_format e (message (self s)) x \<noteq> None"
    using run_twin [OF that, of cs] by (simp add: twin_def)
  from a b show ?thesis by blast
qed

theorem logger_does_not_change_the_run_witness:
  "twin (demo_running None) (demo_running (Some accepting)) \<and>
   logger (self (demo_running None)) = None \<and>
   logger (self (demo_running (Some accepting))) = Some accepting \<and>
   (\<forall>l. accepting l) \<and>
   (\<forall>x. str_format env0 (message (self (demo_running None))) x \<noteq> None) \<and>
   calls (snd (run env0 [Measure MNone (MDefault MEASURE), Restart (MStr ''x'') MNone, Start MNone]
     (demo_running None))) = [] \<and>
   list_all2 same_outcome
     (fst (run env0 [Measure MNone (MDefault MEASURE), Restart (MStr ''x'') MNone, Start MNone]
        (demo_running None)))
     (fst (run env0 [Measure MNone (MDefault MEASURE), Restart (MStr ''x'') MNone, Start MNone]
        (demo_running (Some accepting)))) \<and>
   heap (snd (run env0 [Measure MNone (MDefault MEASURE), Restart (MStr ''x'') MNone, Start MNone]
     (demo_running (Some accepting)))) =
   heap (snd (run env0 [Measure MNone (MDefault MEASURE), Restart (MStr ''x'') MNone, Start MNone]
     (demo_running None)))"
proof -
  have h: "twin (demo_running None) (demo_running (Some accepting))"
    "logger (self (demo_running None)) = None"
    "logger (self (demo_running (Some accepting))) = Some accepting"
    "\<forall>l. accepting l"
    "\<forall>x. str_format env0 (message (self (demo_running None))) x \<noteq> None"
    by (simp_all add: twin_def demo_running_fields env0_fields accepting_def fun_eq_iff)
  from logger_does_not_change_the_run
      [where s = "demo_running None" and s' = "demo_running (Some accepting)" and e = env0
         and lg = accepting
         and cs = "[Measure MNone (MDefault MEASURE), Restart (MStr ''x'') MNone, Start MNone]"]
    h
  show ?thesis by (simp add: demo_running_fields)
qed

text \<open>
  The claim as it was stated holds for every logger. With a logger that raises,
  \<open>restart\<close> on a running timer raises where the run without a logger returns the
  timer, and the two timers end in different states.
\<close>

theorem raising_logger_changes_the_run_counterexample:
  "twin (demo_running None) (demo_running (Some refusing)) \<and>
   fst (run env0 [Restart MNone MNone] (demo_running None)) = [Inr PSelf] \<and>
   fst (run env0 [Restart MNone MNone] (demo_running (Some refusing))) =
     [Inl (LoggerError ''t:'')] \<and>
   start_time (self (snd (run env0 [Restart MNone MNone] (demo_running None)))) = Some 2 \<and>
   start_time (self (snd (run env0 [Restart MNone MNone] (demo_running (Some refusing))))) = None"
proof -
  have h: "start_time (self (demo_running None)) = Some 0" "logger (self (demo_running None)) = None"
    by (simp_all add: demo_running_fields)
  have t: "twin (demo_running None) (demo_running (Some refusing))"
    by (simp add: twin_def demo_running_fields fun_eq_iff)
  have a: "restart env0 MNone MNone (demo_running None) =
             (Inr PSelf, started env0 (clicked env0 True 0 (demo_running None)))"
    by (rule restart_returned [OF stop_running_no_logger [OF h]])
  have b: "restart env0 MNone MNone (demo_running (Some refusing)) =
             stop env0 MNone MNone (demo_running (Some refusing))"
    by (simp add: restart_def stop_def click_demo_refusing)
  from t show ?thesis
    by (simp add: a b stop_def click_demo_refusing demo_running_fields env0_fields)
qed

section \<open>C8: the lines of a click\<close>




section \<open>C9: the message of TimerNotRunningError\<close>

text \<open>
  Claim C9, as amended. On a stopped timer \<open>measure\<close> and \<open>stop\<close> raise
  \<open>TimerNotRunningError\<close> carrying the action and the message
  \<open>[<timestamp>] Tried to click `<action>` on <timer-name> but it wasn't running.\<close>,
  where the action stands between backquotes, the timestamp is \<open>isoformat()\<close> of the
  time of the failure and the timer name is \<open>Timer(name=<name>)\<close> for a non-empty
  name and \<open>Unnamed Timer\<close> otherwise.
\<close>

theorem not_running_message:
  assumes "start_time (self s) = None"
  shows "fst (Timer_measure e p q s) =
           Inl (TimerNotRunningError (timer_name (self s)) (dt_now e (now_reads s))
                  (''['' @ isoformat (dt_now e (now_reads s)) @ ''] Tried to click `measure` on '' @
                   timer_name (self s) @ '' but it wasn't running.'')
                  ''measure'') \<and>
         fst (stop e p q s) =
           Inl (TimerNotRunningError (timer_name (self s)) (dt_now e (now_reads s))
                  (''['' @ isoformat (dt_now e (now_reads s)) @ ''] Tried to click `stop` on '' @
                   timer_name (self s) @ '' but it wasn't running.'')
                  ''stop'') \<and>
         timer_name (self s) =
           (case name (self s) of
              None \<Rightarrow> ''Unnamed Timer''
            | Some n \<Rightarrow> if n = [] then ''Unnamed Timer'' else ''Timer(name='' @ n @ '')'')"
  using assms
  by (simp add: Timer_measure_def stop_def click_stopped new_TimerNotRunningError_def timer_name_def
      split: option.splits)

theorem not_running_message_witness:
  "start_time (self blank) = None \<and>
   fst (stop env0 MNone MNone blank) =
     Inl (TimerNotRunningError ''Unnamed Timer'' instant
            ''[2024-01-02T03:04:05] Tried to click `stop` on Unnamed Timer but it wasn't running.''
            ''stop'')"
proof -
  have h: "start_time (self blank) = None" by (simp add: blank_fields)
  have n: "timer_name (self blank) = ''Unnamed Timer''" by (simp add: blank_fields timer_name_def)
  from not_running_message [OF h, of env0 MNone MNone] h n show ?thesis
    by (simp add: env0_fields isoformat_instant)
qed

text \<open>
  The claim as it was stated puts the action between single quotes; the message that
  \<open>stop\<close> raises on a stopped, unnamed timer is not that text.
\<close>

theorem not_running_message_single_quotes_counterexample:
  "raised_message (fst (stop env0 MNone MNone blank)) \<noteq>
     Some (spec_not_running_message (isoformat instant) ''stop'' (timer_name (self blank)))"
proof -
  have h: "start_time (self blank) = None" by (simp add: blank_fields)
  have n: "timer_name (self blank) = ''Unnamed Timer''" by (simp add: blank_fields timer_name_def)
  show ?thesis
    by (simp add: stop_def click_stopped h n raised_message_def new_TimerNotRunningError_def
        spec_not_running_message_def env0_fields isoformat_instant)
qed

section \<open>C10: what the with statement binds\<close>

text \<open>
  Claim C10. \<open>__enter__\<close> starts the timer and returns \<open>None\<close>, although \<open>start\<close>
  returns the timer: on a stopped timer \<open>start()\<close> returns \<open>self\<close> while
  \<open>__enter__\<close> returns \<open>None\<close> and leaves the state that \<open>start()\<close> leaves; it never
  returns the timer; and the body of \<open>with timer as v\<close> only ever runs with \<open>v = None\<close>.
\<close>

theorem enter_returns_None:
  "(start_time (self s) = None \<longrightarrow>
      fst (start e MNone s) = Inr PSelf \<and> fst (Timer_enter e s) = Inr PNone \<and>
      snd (Timer_enter e s) = snd (start e MNone s)) \<and>
   fst (Timer_enter e s) \<noteq> Inr PSelf \<and>
   with_Timer e body s = with_Timer e (\<lambda>v. body PNone) s"
proof -
  obtain r s1 where st: "start e MNone s = (r, s1)" by (cases "start e MNone s")
  have a: "start_time (self s) = None \<longrightarrow>
      fst (start e MNone s) = Inr PSelf \<and> fst (Timer_enter e s) = Inr PNone \<and>
      snd (Timer_enter e s) = snd (start e MNone s)"
    by (simp add: Timer_enter_def start_stopped_quiet)
  have b: "fst (Timer_enter e s) \<noteq> Inr PSelf"
    using st by (cases r) (simp_all add: Timer_enter_def)
  have c: "with_Timer e body s = with_Timer e (\<lambda>v. body PNone) s"
    using st by (cases r) (simp_all add: with_Timer_def Timer_enter_def)
  from a b c show ?thesis by simp
qed

theorem enter_returns_None_witness:
  "start_time (self blank) = None \<and> fst (start env0 MNone blank) = Inr PSelf \<and>
   fst (Timer_enter env0 blank) = Inr PNone"
  using enter_returns_None [of blank env0 "\<lambda>v s. (Inr Falls_through, s)"]
  by (simp add: blank_fields)

end
